theory Spec2Isabelle
  imports
    Complex_Main
    "HOL-Library.AList"
    "HOL-Library.Log_Nat"
    "HOL-Library.Char_ord"
    "HOL-Library.List_Lexorder"
    "HOL-Library.Product_Lexorder"
begin

section \<open>Python values\<close>

text \<open>
  The client works on whatever \<^verbatim>\<open>json()\<close> returns, typed \<^verbatim>\<open>Any\<close> in the source, so the
  model has one type of Python values. A \<^verbatim>\<open>dict\<close> is an association list in insertion
  order, read with \<^verbatim>\<open>get\<close>; a \<^verbatim>\<open>bool\<close> is kept apart from an \<^verbatim>\<open>int\<close> because
  \<^verbatim>\<open>is False\<close> and \<^verbatim>\<open>str\<close> tell them apart, although \<^verbatim>\<open>isinstance(v, int)\<close> holds of both.
  Strings are byte strings (UTF-8): comparing them bytewise is comparing code points.

  A \<^verbatim>\<open>float\<close> is a binary64 value: a rational that binary64 represents, an infinity or
  NaN. The sign of zero is not modelled.
\<close>

datatype pyfloat = Finite rat | PosInf | NegInf | NaN

record datetime =
  year :: int
  month :: int
  day :: int
  hour :: int
  minute :: int
  second :: int
  microsecond :: int
  utcoffset :: "int option"

datatype pyval =
    PNone
  | PBool bool
  | PInt int
  | PFloat pyfloat
  | PStr string
  | PList "pyval list"
  | PDict "(string \<times> pyval) list"
  | PDatetime datetime

type_synonym pydict = "(string \<times> pyval) list"

datatype py_error =
    ClientError | TimeoutError | AttributeError | TypeError | OverflowError | ValueError

text \<open>
  What the Python runtime and its library do and the repository does not define:
  \<^verbatim>\<open>str\<close> of a float, a list, a dict or a datetime, \<^verbatim>\<open>float\<close> of a string (\<open>None\<close> is
  its \<^verbatim>\<open>ValueError\<close>), \<^verbatim>\<open>round(x, n)\<close> and \<^verbatim>\<open>datetime.fromisoformat\<close> (\<open>None\<close> is its
  \<^verbatim>\<open>ValueError\<close>). Every function that reaches one of them takes the library as a
  parameter, and every theorem holds for any library.
\<close>

record pylib =
  repr_of :: "pyval \<Rightarrow> string"
  float_of_str :: "string \<Rightarrow> pyfloat option"
  round_ndigits :: "pyfloat \<Rightarrow> int \<Rightarrow> pyfloat"
  fromisoformat :: "string \<Rightarrow> datetime option"

subsection \<open>Truth value, \<^verbatim>\<open>or\<close>, \<^verbatim>\<open>str\<close>\<close>

fun truthy :: "pyval \<Rightarrow> bool" where
  "truthy PNone = False"
| "truthy (PBool b) = b"
| "truthy (PInt i) = (i \<noteq> 0)"
| "truthy (PFloat f) = (f \<noteq> Finite 0)"
| "truthy (PStr s) = (s \<noteq> [])"
| "truthy (PList xs) = (xs \<noteq> [])"
| "truthy (PDict d) = (d \<noteq> [])"
| "truthy (PDatetime t) = True"

definition py_or :: "pyval \<Rightarrow> pyval \<Rightarrow> pyval" where
  "py_or a b = (if truthy a then a else b)"

fun digits_of :: "nat \<Rightarrow> string" where
  "digits_of n =
     (if n < 10 then [''0123456789'' ! n]
      else digits_of (n div 10) @ [''0123456789'' ! (n mod 10)])"

declare digits_of.simps [simp del]

definition str_of_int :: "int \<Rightarrow> string" where
  "str_of_int i = (if i < 0 then CHR ''-'' # digits_of (nat (- i)) else digits_of (nat i))"

fun py_str :: "pylib \<Rightarrow> pyval \<Rightarrow> string" where
  "py_str lib PNone = ''None''"
| "py_str lib (PBool b) = (if b then ''True'' else ''False'')"
| "py_str lib (PInt i) = str_of_int i"
| "py_str lib (PStr s) = s"
| "py_str lib v = repr_of lib v"

subsection \<open>Dictionaries\<close>

definition dict_get :: "pydict \<Rightarrow> string \<Rightarrow> pyval" where
  "dict_get d k = (case map_of d k of None \<Rightarrow> PNone | Some v \<Rightarrow> v)"

definition has_key :: "pydict \<Rightarrow> string \<Rightarrow> bool" where
  "has_key d k = (map_of d k \<noteq> None)"

fun is_dict :: "pyval \<Rightarrow> bool" where
  "is_dict (PDict d) = True"
| "is_dict v = False"

section \<open>Floats\<close>

text \<open>
  Python's \<^verbatim>\<open>float\<close> is IEEE 754 binary64 with round-to-nearest, ties to even: the result
  of an operation is the exact rational result rounded to 53 significant bits (to a multiple
  of \<open>2 powi (-1074)\<close> below \<open>2 powi (-1022)\<close>), and an infinity from \<open>2 powi 1024\<close> on.
\<close>

definition round_half_even :: "rat \<Rightarrow> int" where
  "round_half_even q =
     (let f = \<lfloor>q\<rfloor>; r = q - of_int f
      in if r < 1 / 2 then f else if 1 / 2 < r then f + 1 else if even f then f else f + 1)"

text \<open>\<open>ilog2 q\<close> is the integer part of the binary logarithm of a positive \<open>q\<close>.\<close>

definition ilog2 :: "rat \<Rightarrow> int" where
  "ilog2 q =
     (let (n, d) = quotient_of q; e = bitlen n - bitlen d
      in if 2 powi e \<le> q then e else e - 1)"

definition round64 :: "rat \<Rightarrow> pyfloat" where
  "round64 q =
     (if q = 0 then Finite 0
      else
        let e = max (ilog2 \<bar>q\<bar>) (- 1022);
            u = 2 powi (e - 52);
            r = of_int (round_half_even (q / u)) * u
        in if 2 powi 1024 \<le> \<bar>r\<bar> then (if 0 < q then PosInf else NegInf) else Finite r)"

text \<open>\<^verbatim>\<open>float(i)\<close> of an \<^verbatim>\<open>int\<close> raises \<^verbatim>\<open>OverflowError\<close> where rounding leaves the finite range.\<close>

definition float_of_int :: "int \<Rightarrow> py_error + pyfloat" where
  "float_of_int i =
     (case round64 (of_int i) of Finite r \<Rightarrow> Inr (Finite r) | _ \<Rightarrow> Inl OverflowError)"

fun fsub :: "pyfloat \<Rightarrow> pyfloat \<Rightarrow> pyfloat" where
  "fsub (Finite a) (Finite b) = round64 (a - b)"
| "fsub NaN y = NaN"
| "fsub x NaN = NaN"
| "fsub PosInf PosInf = NaN"
| "fsub NegInf NegInf = NaN"
| "fsub PosInf y = PosInf"
| "fsub NegInf y = NegInf"
| "fsub (Finite a) PosInf = NegInf"
| "fsub (Finite a) NegInf = PosInf"

fun fneg :: "pyfloat \<Rightarrow> pyfloat" where
  "fneg (Finite a) = Finite (- a)"
| "fneg PosInf = NegInf"
| "fneg NegInf = PosInf"
| "fneg NaN = NaN"

fun fmul :: "pyfloat \<Rightarrow> pyfloat \<Rightarrow> pyfloat" where
  "fmul (Finite a) (Finite b) = round64 (a * b)"
| "fmul NaN y = NaN"
| "fmul x NaN = NaN"
| "fmul (Finite a) y = (if a = 0 then NaN else if 0 < a then y else fneg y)"
| "fmul x (Finite b) = (if b = 0 then NaN else if 0 < b then x else fneg x)"
| "fmul PosInf y = y"
| "fmul NegInf y = fneg y"

text \<open>\<^verbatim>\<open>round(x)\<close> with one argument: the nearest integer, ties to even.\<close>

fun py_round :: "pyfloat \<Rightarrow> py_error + pyval" where
  "py_round (Finite q) = Inr (PInt (round_half_even q))"
| "py_round NaN = Inl ValueError"
| "py_round x = Inl OverflowError"

text \<open>
  \<^verbatim>\<open>str.strip()\<close> on the ASCII white space; \<^verbatim>\<open>float\<close> strips the other white space of
  Unicode itself.
\<close>

definition is_space :: "char \<Rightarrow> bool" where
  "is_space c = (let n = (of_char c :: nat) in (9 \<le> n \<and> n \<le> 13) \<or> (28 \<le> n \<and> n \<le> 32))"

definition py_strip :: "string \<Rightarrow> string" where
  "py_strip s = rev (dropWhile is_space (rev (dropWhile is_space s)))"

text \<open>\<^verbatim>\<open>float(v)\<close> for \<^verbatim>\<open>isinstance(v, (int, float))\<close>: a \<^verbatim>\<open>bool\<close> is an \<^verbatim>\<open>int\<close>.\<close>

definition float_of_number :: "pyval \<Rightarrow> py_error + pyfloat" where
  "float_of_number v =
     (case v of
        PBool b \<Rightarrow> Inr (Finite (if b then 1 else 0))
      | PInt i \<Rightarrow> float_of_int i
      | PFloat f \<Rightarrow> Inr f
      | _ \<Rightarrow> Inl TypeError)"

fun is_number :: "pyval \<Rightarrow> bool" where
  "is_number (PBool b) = True"
| "is_number (PInt i) = True"
| "is_number (PFloat f) = True"
| "is_number v = False"

section \<open>The normalisation engine (api.py)\<close>

subsection \<open>\<^verbatim>\<open>pick\<close> and \<^verbatim>\<open>normalize_list_response\<close>\<close>

fun pick_keys :: "pydict \<Rightarrow> string list \<Rightarrow> pyval" where
  "pick_keys d [] = PNone"
| "pick_keys d (k # ks) = (let v = dict_get d k in if v \<noteq> PNone then v else pick_keys d ks)"

definition pick :: "pyval \<Rightarrow> string list \<Rightarrow> pyval" where
  "pick d keys = (case d of PDict m \<Rightarrow> pick_keys m keys | _ \<Rightarrow> PNone)"

text \<open>\<^verbatim>\<open>[x for x in data if isinstance(x, dict)]\<close>\<close>

fun dicts_of :: "pyval list \<Rightarrow> pydict list" where
  "dicts_of [] = []"
| "dicts_of (PDict d # xs) = d # dicts_of xs"
| "dicts_of (x # xs) = dicts_of xs"

fun first_list_under :: "pydict \<Rightarrow> string list \<Rightarrow> pydict list" where
  "first_list_under d [] = []"
| "first_list_under d (k # ks) =
     (case dict_get d k of PList v \<Rightarrow> dicts_of v | _ \<Rightarrow> first_list_under d ks)"

definition normalize_list_response :: "pyval \<Rightarrow> pydict list" where
  "normalize_list_response data =
     (case data of
        PList xs \<Rightarrow> dicts_of xs
      | PDict d \<Rightarrow> first_list_under d [''items'', ''data'', ''results'', ''batches'']
      | _ \<Rightarrow> [])"

subsection \<open>Device to fermenter name\<close>

text \<open>
  The list branch of \<^verbatim>\<open>collect_device_ids\<close>. The dict branch calls the function again on
  a value it has checked to be a list, so that call is this branch too.
\<close>

fun collect_from_list :: "pylib \<Rightarrow> pyval list \<Rightarrow> string list" where
  "collect_from_list lib [] = []"
| "collect_from_list lib (item # items) =
     (case item of
        PStr s \<Rightarrow> [py_str lib item]
      | PInt i \<Rightarrow> [py_str lib item]
      | PBool b \<Rightarrow> [py_str lib item]
      | PDict d \<Rightarrow>
          (let v = py_or (dict_get d ''id'')
                     (py_or (dict_get d ''deviceId'')
                       (py_or (dict_get d ''proId'') (dict_get d ''_id'')))
           in if truthy v then [py_str lib v] else [])
      | _ \<Rightarrow> [])
     @ collect_from_list lib items"

definition collect_device_ids :: "pylib \<Rightarrow> pyval \<Rightarrow> string list" where
  "collect_device_ids lib container =
     (case container of
        PNone \<Rightarrow> []
      | PDict d \<Rightarrow>
          concat (map (\<lambda>k. let v = dict_get d k in if truthy v then [py_str lib v] else [])
                    [''proId'', ''deviceId'', ''id'', ''_id''])
          @ concat (map (\<lambda>k. case dict_get d k of PList v \<Rightarrow> collect_from_list lib v | _ \<Rightarrow> [])
                    [''items'', ''data'', ''devices''])
      | PList xs \<Rightarrow> collect_from_list lib xs
      | PStr s \<Rightarrow> [py_str lib container]
      | PInt i \<Rightarrow> [py_str lib container]
      | PBool b \<Rightarrow> [py_str lib container]
      | _ \<Rightarrow> [])"



definition fer_name :: "pylib \<Rightarrow> pydict \<Rightarrow> string" where
  "fer_name lib fer =
     py_str lib
       (py_or (dict_get fer ''name'')
         (py_or (dict_get fer ''title'')
           (py_or (dict_get fer ''id'') (PStr ''Fermenter''))))"

definition possible :: "pydict \<Rightarrow> pyval list" where
  "possible fer =
     [dict_get fer ''devices'',
      dict_get fer ''device'',
      if truthy (dict_get fer ''proId'') then PDict [(''proId'', dict_get fer ''proId'')]
      else PNone]"

definition fermenter_device_ids :: "pylib \<Rightarrow> pydict \<Rightarrow> string list" where
  "fermenter_device_ids lib fer = concat (map (collect_device_ids lib) (possible fer))"

definition add_fermenter :: "pylib \<Rightarrow> pydict \<Rightarrow> (string \<rightharpoonup> string) \<Rightarrow> (string \<rightharpoonup> string)" where
  "add_fermenter lib fer m =
     fold (\<lambda>did m. m(did \<mapsto> fer_name lib fer)) (fermenter_device_ids lib fer) m"

definition device_to_fermenter_name :: "pylib \<Rightarrow> pydict list \<Rightarrow> (string \<rightharpoonup> string)" where
  "device_to_fermenter_name lib fermenters = fold (add_fermenter lib) fermenters Map.empty"


subsection \<open>Batch label and batch rank\<close>

definition batch_label :: "pydict \<Rightarrow> pyval" where
  "batch_label batch =
     py_or (dict_get batch ''name'')
       (py_or (dict_get batch ''batchCode'')
         (py_or (dict_get batch ''id'') (dict_get batch ''_id'')))"

type_synonym rank = "nat \<times> nat \<times> nat \<times> string"

definition batch_rank :: "pylib \<Rightarrow> pydict \<Rightarrow> rank" where
  "batch_rank lib batch =
     (let enabled = (if dict_get batch ''enabled'' \<noteq> PBool False then 1 else 0);
          not_archived = (if dict_get batch ''archived'' \<noteq> PBool True then 1 else 0);
          not_ended = (if dict_get batch ''end'' = PNone then 1 else 0);
          recency = py_str lib
            (py_or (dict_get batch ''updatedAt'')
              (py_or (dict_get batch ''start'')
                (py_or (dict_get batch ''createdAt'') (PStr ''''))))
      in (enabled, not_archived, not_ended, recency))"

fun extract_device_ids_from_batch_devices :: "pylib \<Rightarrow> pyval \<Rightarrow> string list" where
  "extract_device_ids_from_batch_devices lib (PList []) = []"
| "extract_device_ids_from_batch_devices lib (PList (item # items)) =
     (case item of
        PStr s \<Rightarrow> [py_str lib item]
      | PInt i \<Rightarrow> [py_str lib item]
      | PBool b \<Rightarrow> [py_str lib item]
      | PDict d \<Rightarrow>
          (let v = py_or (dict_get d ''id'')
                     (py_or (dict_get d ''_id'')
                       (py_or (dict_get d ''deviceId'') (dict_get d ''proId'')))
           in if truthy v then [py_str lib v] else [])
      | _ \<Rightarrow> [])
     @ extract_device_ids_from_batch_devices lib (PList items)"
| "extract_device_ids_from_batch_devices lib devices_field = []"

text \<open>
  The test \<^verbatim>\<open>not existing or batch_rank(batch) > batch_rank(existing)\<close>: a missing entry
  and an empty dict are both falsy.
\<close>

definition replaces :: "pylib \<Rightarrow> pydict \<Rightarrow> pydict option \<Rightarrow> bool" where
  "replaces lib batch existing =
     (case existing of
        None \<Rightarrow> True
      | Some e \<Rightarrow> e = [] \<or> batch_rank lib e < batch_rank lib batch)"

definition batch_device_ids :: "pylib \<Rightarrow> pydict \<Rightarrow> string list" where
  "batch_device_ids lib batch =
     extract_device_ids_from_batch_devices lib (dict_get batch ''devices'')"

definition add_batch :: "pylib \<Rightarrow> pydict \<Rightarrow> (string \<rightharpoonup> pydict) \<Rightarrow> (string \<rightharpoonup> pydict)" where
  "add_batch lib batch m =
     fold (\<lambda>did m. if replaces lib batch (m did) then m(did \<mapsto> batch) else m)
       (batch_device_ids lib batch) m"

definition device_id_to_best_batch :: "pylib \<Rightarrow> pydict list \<Rightarrow> (string \<rightharpoonup> pydict)" where
  "device_id_to_best_batch lib batches = fold (add_batch lib) batches Map.empty"

text \<open>
  The rank in the specification's words, to compare with \<open>batch_rank\<close>: enabled beats
  disabled, then not archived beats archived, then not ended beats ended, then the greater
  recency string wins.
\<close>

definition spec_enabled :: "pydict \<Rightarrow> bool" where
  "spec_enabled b = (dict_get b ''enabled'' \<noteq> PBool False)"

definition spec_not_archived :: "pydict \<Rightarrow> bool" where
  "spec_not_archived b = (dict_get b ''archived'' \<noteq> PBool True)"

definition spec_not_ended :: "pydict \<Rightarrow> bool" where
  "spec_not_ended b = (dict_get b ''end'' = PNone)"

text \<open>
  The recency string of a batch in the specification's words: the string of its most recent
  timestamp, which is \<^verbatim>\<open>updatedAt\<close>, else \<^verbatim>\<open>start\<close>, else \<^verbatim>\<open>createdAt\<close>, and the empty string for
  a batch that has none of them.
\<close>

definition spec_recency :: "pylib \<Rightarrow> pydict \<Rightarrow> string" where
  "spec_recency lib b =
     (if truthy (dict_get b ''updatedAt'') then py_str lib (dict_get b ''updatedAt'')
      else if truthy (dict_get b ''start'') then py_str lib (dict_get b ''start'')
      else if truthy (dict_get b ''createdAt'') then py_str lib (dict_get b ''createdAt'')
      else [])"

definition spec_outranks :: "pylib \<Rightarrow> pydict \<Rightarrow> pydict \<Rightarrow> bool" where
  "spec_outranks lib a b =
     (if spec_enabled a \<noteq> spec_enabled b then spec_enabled a
      else if spec_not_archived a \<noteq> spec_not_archived b then spec_not_archived a
      else if spec_not_ended a \<noteq> spec_not_ended b then spec_not_ended a
      else spec_recency lib b < spec_recency lib a)"

subsection \<open>\<^verbatim>\<open>as_float\<close>\<close>

definition as_float :: "pylib \<Rightarrow> pyval \<Rightarrow> py_error + pyval" where
  "as_float lib v =
     (if v = PNone then Inr PNone
      else if is_number v then
        (case float_of_number v of Inl e \<Rightarrow> Inl e | Inr f \<Rightarrow> Inr (PFloat f))
      else
        (case v of
           PStr s \<Rightarrow>
             (case float_of_str lib (py_strip s) of
                None \<Rightarrow> Inr PNone
              | Some f \<Rightarrow> Inr (PFloat f))
         | _ \<Rightarrow> Inr PNone))"

subsection \<open>The fetch layer\<close>

text \<open>
  A request is a path and its query parameters (none is the empty list). The server answers
  a request with JSON or the request raises; the answer may depend on all the requests made
  before, so the state the client threads is the log of its requests. \<open>http_get\<close> is the
  method \<^verbatim>\<open>_get\<close>.
\<close>

type_synonym request = "string \<times> (string \<times> int) list"

type_synonym server = "request list \<Rightarrow> request \<Rightarrow> py_error + pyval"

definition http_get :: "server \<Rightarrow> request list \<Rightarrow> request \<Rightarrow> (py_error + pyval) \<times> request list" where
  "http_get srv lg req = (srv lg req, lg @ [req])"

subsection \<open>\<^verbatim>\<open>_get_latest_reading\<close>\<close>

definition candidates :: "string \<Rightarrow> request list" where
  "candidates device_id =
     [(''/devices/'' @ device_id @ ''/readings'', [(''limit'', 1)]),
      (''/devices/'' @ device_id @ ''/readings'', [(''take'', 1)]),
      (''/devices/'' @ device_id @ ''/readings'', [(''pageSize'', 1), (''page'', 1)]),
      (''/devices/'' @ device_id @ ''/measurements'', [(''limit'', 1)])]"

fun first_nested :: "pydict \<Rightarrow> string list \<Rightarrow> pyval option" where
  "first_nested d [] = None"
| "first_nested d (k # ks) =
     (case dict_get d k of PList (x # xs) \<Rightarrow> Some x | _ \<Rightarrow> first_nested d ks)"

text \<open>
  The body of the loop after a request that did not raise. Each of its paths returns, the
  last statement of the body being \<^verbatim>\<open>return None\<close>.
\<close>

definition reading_of_response :: "pyval \<Rightarrow> pyval" where
  "reading_of_response data =
     (case data of
        PList xs \<Rightarrow> (case xs of [] \<Rightarrow> PNone | x # rest \<Rightarrow> x)
      | PDict d \<Rightarrow>
          (case first_nested d [''items'', ''readings'', ''data'', ''results''] of
             Some x \<Rightarrow> x
           | None \<Rightarrow>
               if list_ex (has_key d)
                    [''temperature'', ''temp'', ''density'', ''sg'', ''specificGravity'', ''gravity'']
               then data else PNone)
      | _ \<Rightarrow> PNone)"

fun get_latest_reading_loop :: "server \<Rightarrow> request list \<Rightarrow> request list \<Rightarrow> pyval \<times> request list" where
  "get_latest_reading_loop srv lg [] = (PNone, lg)"
| "get_latest_reading_loop srv lg (c # cs) =
     (case http_get srv lg c of
        (Inl e, lg') \<Rightarrow> get_latest_reading_loop srv lg' cs
      | (Inr data, lg') \<Rightarrow> (reading_of_response data, lg'))"

definition get_latest_reading :: "server \<Rightarrow> request list \<Rightarrow> string \<Rightarrow> pyval \<times> request list" where
  "get_latest_reading srv lg device_id = get_latest_reading_loop srv lg (candidates device_id)"

subsection \<open>\<^verbatim>\<open>fetch_readings\<close>\<close>

definition fetch_fermenters :: "server \<Rightarrow> request list \<Rightarrow> pydict list \<times> request list" where
  "fetch_fermenters srv lg =
     (case http_get srv lg (''/fermenters'', []) of
        (Inl e, lg') \<Rightarrow> ([], lg')
      | (Inr data, lg') \<Rightarrow> (normalize_list_response data, lg'))"

fun fetch_batches_loop ::
  "server \<Rightarrow> request list \<Rightarrow> (string \<times> int) list list \<Rightarrow> pydict list \<Rightarrow> pydict list \<times> request list" where
  "fetch_batches_loop srv lg [] batches = (batches, lg)"
| "fetch_batches_loop srv lg (params # rest) batches =
     (case http_get srv lg (''/batches'', params) of
        (Inl e, lg') \<Rightarrow> fetch_batches_loop srv lg' rest batches
      | (Inr raw, lg') \<Rightarrow>
          (let found = normalize_list_response raw
           in if found \<noteq> [] then (found, lg') else fetch_batches_loop srv lg' rest found))"

definition fetch_batches :: "server \<Rightarrow> request list \<Rightarrow> pydict list \<times> request list" where
  "fetch_batches srv lg =
     fetch_batches_loop srv lg
       [[], [(''limit'', 200)], [(''take'', 200)], [(''pageSize'', 200), (''page'', 1)]] []"

definition temp_keys :: "string list" where
  "temp_keys = [''temperature'', ''temp'', ''tempC'', ''temperatureC'', ''beerTemp'', ''wortTemp'']"

definition sg_keys :: "string list" where
  "sg_keys = [''density'', ''sg'', ''specificGravity'', ''gravity'', ''SG'']"

definition time_keys :: "string list" where
  "time_keys = [''time'', ''timestamp'', ''createdAt'', ''date'']"

text \<open>
  \<^verbatim>\<open>nested = pick(x, "reading", "data", "values")\<close>, then \<^verbatim>\<open>x = nested\<close> if that is a dict.
\<close>

definition unwrap :: "pyval \<Rightarrow> pyval" where
  "unwrap x = (let nested = pick x [''reading'', ''data'', ''values''] in if is_dict nested then nested else x)"

text \<open>
  \<^verbatim>\<open>if cur is None and isinstance(latest.get(key), dict): cur = as_float(pick(latest[key], ...))\<close>;
  \<^verbatim>\<open>latest.get\<close> raises \<^verbatim>\<open>AttributeError\<close> on anything but a dict.
\<close>

definition nested_field :: "pylib \<Rightarrow> pyval \<Rightarrow> pyval \<Rightarrow> string \<Rightarrow> string list \<Rightarrow> py_error + pyval" where
  "nested_field lib latest cur k subkeys =
     (if cur = PNone then
        (case latest of
           PDict l \<Rightarrow>
             if is_dict (dict_get l k) then as_float lib (pick (dict_get l k) subkeys)
             else Inr cur
         | _ \<Rightarrow> Inl AttributeError)
      else Inr cur)"

text \<open>The temperature, the gravity and the time a device entry embeds.\<close>

definition embedded_reading :: "pylib \<Rightarrow> pydict \<Rightarrow> py_error + (pyval \<times> pyval \<times> pyval)" where
  "embedded_reading lib dev =
     (let latest = unwrap (py_or (dict_get dev ''latestReading'') (PDict []))
      in case as_float lib (pick latest temp_keys) of
           Inl e \<Rightarrow> Inl e
         | Inr temp \<Rightarrow>
        (case as_float lib (pick latest sg_keys) of
           Inl e \<Rightarrow> Inl e
         | Inr sg \<Rightarrow>
        (let time = py_or (pick latest time_keys) (pick (PDict dev) [''latestReadingTime''])
         in case nested_field lib latest temp ''temperature'' [''celsius'', ''fahrenheit''] of
              Inl e \<Rightarrow> Inl e
            | Inr temp' \<Rightarrow>
           (case nested_field lib latest sg ''density'' [''specificGravity'', ''plato''] of
              Inl e \<Rightarrow> Inl e
            | Inr sg' \<Rightarrow> Inr (temp', sg', time)))))"

text \<open>
  \<^verbatim>\<open>if cur is None: v = pick(reading, keys); cur = as_float(pick(v, subkeys)) if isinstance(v, dict) else as_float(v)\<close>
\<close>

definition from_reading :: "pylib \<Rightarrow> pyval \<Rightarrow> pyval \<Rightarrow> string list \<Rightarrow> string list \<Rightarrow> py_error + pyval" where
  "from_reading lib reading cur keys subkeys =
     (if cur = PNone then
        (let v = pick reading keys
         in if is_dict v then as_float lib (pick v subkeys) else as_float lib v)
      else Inr cur)"

definition secondary_lookup ::
  "pylib \<Rightarrow> server \<Rightarrow> request list \<Rightarrow> string \<Rightarrow> pyval \<times> pyval \<times> pyval
     \<Rightarrow> (py_error + (pyval \<times> pyval \<times> pyval)) \<times> request list" where
  "secondary_lookup lib srv lg dev_id r =
     (case r of (temp, sg, time) \<Rightarrow>
        if temp = PNone \<or> sg = PNone then
          (case get_latest_reading srv lg dev_id of (reading, lg') \<Rightarrow>
             if is_dict reading then
               (let reading = unwrap reading
                in case from_reading lib reading temp temp_keys [''celsius'', ''fahrenheit''] of
                     Inl e \<Rightarrow> (Inl e, lg')
                   | Inr temp' \<Rightarrow>
                  (case from_reading lib reading sg sg_keys [''specificGravity'', ''plato''] of
                     Inl e \<Rightarrow> (Inl e, lg')
                   | Inr sg' \<Rightarrow> (Inr (temp', sg', py_or time (pick reading time_keys)), lg')))
             else (Inr (temp, sg, time), lg'))
        else (Inr (temp, sg, time), lg))"

definition make_record ::
  "(string \<rightharpoonup> string) \<Rightarrow> (string \<rightharpoonup> pydict) \<Rightarrow> pydict \<Rightarrow> string \<Rightarrow> pyval \<times> pyval \<times> pyval \<Rightarrow> pyval" where
  "make_record fm bm dev dev_id r =
     (case r of (temp, sg, time) \<Rightarrow>
        PDict
          [(''name'', py_or (dict_get dev ''name'') (PStr (''Plaato '' @ dev_id))),
           (''batteryLevel'', pick (PDict dev) [''batteryLevel'', ''battery'', ''battery_percent'']),
           (''wifiStrength'', pick (PDict dev) [''wifiStrength'', ''rssi'', ''signal'']),
           (''temperature'', temp),
           (''density'', sg),
           (''time'', time),
           (''fermenter'', case fm dev_id of None \<Rightarrow> PNone | Some n \<Rightarrow> PStr n),
           (''batch'', case bm dev_id of None \<Rightarrow> PNone | Some b \<Rightarrow> batch_label b)])"

text \<open>
  The loop over the devices. \<^verbatim>\<open>dev.get\<close> raises \<^verbatim>\<open>AttributeError\<close> on an entry that is not
  a dict; \<^verbatim>\<open>out[dev_id] = ...\<close> keeps the place of a key already there.
\<close>

fun devices_loop ::
  "pylib \<Rightarrow> server \<Rightarrow> (string \<rightharpoonup> string) \<Rightarrow> (string \<rightharpoonup> pydict) \<Rightarrow> pyval list \<Rightarrow> request list
     \<Rightarrow> pydict \<Rightarrow> (py_error + pydict) \<times> request list" where
  "devices_loop lib srv fm bm [] lg out = (Inr out, lg)"
| "devices_loop lib srv fm bm (dev # devs) lg out =
     (case dev of
        PDict d \<Rightarrow>
          if \<not> truthy (dict_get d ''id'') then devices_loop lib srv fm bm devs lg out
          else
            (let dev_id = py_str lib (dict_get d ''id'')
             in case embedded_reading lib d of
                  Inl e \<Rightarrow> (Inl e, lg)
                | Inr r \<Rightarrow>
                    (case secondary_lookup lib srv lg dev_id r of
                       (Inl e, lg') \<Rightarrow> (Inl e, lg')
                     | (Inr r', lg') \<Rightarrow>
                         devices_loop lib srv fm bm devs lg'
                           (AList.update dev_id (make_record fm bm d dev_id r') out)))
      | _ \<Rightarrow> (Inl AttributeError, lg))"

text \<open>
  \<^verbatim>\<open>for dev in devices or []\<close>: the response of \<^verbatim>\<open>/devices\<close> is used as it came. A dict
  gives its keys and a string its characters; a number is not iterable.
\<close>

definition iterate_devices :: "pyval \<Rightarrow> py_error + pyval list" where
  "iterate_devices devices =
     (if \<not> truthy devices then Inr []
      else
        (case devices of
           PList xs \<Rightarrow> Inr xs
         | PDict d \<Rightarrow> Inr (map (\<lambda>kv. PStr (fst kv)) d)
         | PStr s \<Rightarrow> Inr (map (\<lambda>c. PStr [c]) s)
         | _ \<Rightarrow> Inl TypeError))"

definition fetch_readings :: "pylib \<Rightarrow> server \<Rightarrow> (py_error + pydict) \<times> request list" where
  "fetch_readings lib srv =
     (case http_get srv [] (''/devices'', []) of
        (Inl e, lg1) \<Rightarrow> (Inl e, lg1)
      | (Inr devices, lg1) \<Rightarrow>
          (case fetch_fermenters srv lg1 of (fermenters, lg2) \<Rightarrow>
          (case fetch_batches srv lg2 of (batches, lg3) \<Rightarrow>
             (let fm = device_to_fermenter_name lib fermenters;
                  bm = device_id_to_best_batch lib batches
              in case iterate_devices devices of
                   Inl e \<Rightarrow> (Inl e, lg3)
                 | Inr devs \<Rightarrow> devices_loop lib srv fm bm devs lg3 []))))"

section \<open>The presentation layer (sensor.py)\<close>

datatype SensorDeviceClass = TEMPERATURE | BATTERY | SIGNAL_STRENGTH | TIMESTAMP

datatype SensorStateClass = MEASUREMENT

record ReadingDef =
  key :: string
  name :: string
  unit :: "string option"
  device_class :: "SensorDeviceClass option"
  state_class :: "SensorStateClass option"

definition READINGS :: "ReadingDef list" where
  "READINGS =
     [\<lparr>key = ''temperature'', name = ''Temperature'', unit = Some [CHR 0xC2, CHR 0xB0, CHR ''C''],
        device_class = Some TEMPERATURE, state_class = Some MEASUREMENT\<rparr>,
      \<lparr>key = ''density'', name = ''Specific Gravity'', unit = Some ''SG'',
        device_class = None, state_class = Some MEASUREMENT\<rparr>,
      \<lparr>key = ''gravity_points'', name = ''Gravity Points'', unit = Some ''pts'',
        device_class = None, state_class = Some MEASUREMENT\<rparr>,
      \<lparr>key = ''batteryLevel'', name = ''Battery'', unit = Some ''%'',
        device_class = Some BATTERY, state_class = Some MEASUREMENT\<rparr>,
      \<lparr>key = ''wifiStrength'', name = ''WiFi Strength'', unit = None,
        device_class = Some SIGNAL_STRENGTH, state_class = Some MEASUREMENT\<rparr>,
      \<lparr>key = ''time'', name = ''Last Reading'', unit = None,
        device_class = Some TIMESTAMP, state_class = None\<rparr>,
      \<lparr>key = ''fermenter'', name = ''Fermenter'', unit = None,
        device_class = None, state_class = None\<rparr>,
      \<lparr>key = ''batch'', name = ''Current Batch'', unit = None,
        device_class = None, state_class = None\<rparr>]"

text \<open>\<^verbatim>\<open>(self.coordinator.data or {}).get(self._device_id) or {}\<close>\<close>

definition device_payload :: "pydict option \<Rightarrow> string \<Rightarrow> pyval" where
  "device_payload data device_id =
     py_or (dict_get (case data of None \<Rightarrow> [] | Some d \<Rightarrow> d) device_id) (PDict [])"

text \<open>\<^verbatim>\<open>round((float(sg) - 1.0) * 1000)\<close>\<close>

definition points_of :: "pyfloat \<Rightarrow> py_error + pyval" where
  "points_of f = py_round (fmul (fsub f (Finite 1)) (Finite 1000))"

definition gravity_points :: "pylib \<Rightarrow> pyval \<Rightarrow> py_error + pyval" where
  "gravity_points lib sg =
     (case sg of
        PStr s \<Rightarrow>
          (case float_of_str lib (py_strip s) of None \<Rightarrow> Inr PNone | Some f \<Rightarrow> points_of f)
      | _ \<Rightarrow>
          if is_number sg then
            (case float_of_number sg of Inl e \<Rightarrow> Inl e | Inr f \<Rightarrow> points_of f)
          else Inr PNone)"

definition specific_gravity :: "pylib \<Rightarrow> pyval \<Rightarrow> py_error + pyval" where
  "specific_gravity lib val =
     (case val of
        PStr s \<Rightarrow>
          (case float_of_str lib (py_strip s) of
             None \<Rightarrow> Inr PNone
           | Some f \<Rightarrow> Inr (PFloat (round_ndigits lib f 4)))
      | _ \<Rightarrow>
          if is_number val then
            (case float_of_number val of
               Inl e \<Rightarrow> Inl e
             | Inr f \<Rightarrow> Inr (PFloat (round_ndigits lib f 4)))
          else Inr PNone)"

text \<open>\<^verbatim>\<open>val.replace("Z", "+00:00")\<close> replaces every \<^verbatim>\<open>Z\<close>.\<close>

definition replace_Z :: "string \<Rightarrow> string" where
  "replace_Z s = concat (map (\<lambda>c. if c = CHR ''Z'' then ''+00:00'' else [c]) s)"

definition timestamp_value :: "pylib \<Rightarrow> pyval \<Rightarrow> pyval" where
  "timestamp_value lib val =
     (case val of
        PDatetime t \<Rightarrow> val
      | PNone \<Rightarrow> val
      | PStr s \<Rightarrow>
          (case fromisoformat lib (replace_Z s) of Some t \<Rightarrow> PDatetime t | None \<Rightarrow> val)
      | _ \<Rightarrow> val)"

definition native_value :: "pylib \<Rightarrow> ReadingDef \<Rightarrow> pydict option \<Rightarrow> string \<Rightarrow> py_error + pyval" where
  "native_value lib reading data device_id =
     (case device_payload data device_id of
        PDict payload \<Rightarrow>
          if key reading = ''gravity_points'' then gravity_points lib (dict_get payload ''density'')
          else
            (let val = dict_get payload (key reading)
             in if key reading = ''density'' then specific_gravity lib val
                else if device_class reading = Some TIMESTAMP then Inr (timestamp_value lib val)
                else Inr val)
      | _ \<Rightarrow> Inl AttributeError)"

text \<open>
  What the loop over the batches keeps true of the association, the batches in \<open>seen\<close>
  being those already looked at.
\<close>

definition best_inv :: "pylib \<Rightarrow> pydict list \<Rightarrow> (string \<rightharpoonup> pydict) \<Rightarrow> bool" where
  "best_inv lib seen m \<longleftrightarrow>
     (\<forall>did. case m did of
        None \<Rightarrow> (\<forall>b \<in> set seen. did \<notin> set (batch_device_ids lib b))
      | Some b \<Rightarrow> b \<in> set seen \<and> did \<in> set (batch_device_ids lib b) \<and>
          (\<forall>b' \<in> set seen. did \<in> set (batch_device_ids lib b') \<longrightarrow>
             batch_rank lib b' \<le> batch_rank lib b))"

section \<open>Example data\<close>

text \<open>
  A library for the examples that never reach it: every \<^verbatim>\<open>float\<close> of a string and every
  \<^verbatim>\<open>fromisoformat\<close> fails.
\<close>

definition bare_lib :: pylib where
  "bare_lib =
     \<lparr>repr_of = (\<lambda>v. []), float_of_str = (\<lambda>s. None),
      round_ndigits = (\<lambda>f n. f), fromisoformat = (\<lambda>s. None)\<rparr>"

definition batch_active :: pydict where
  "batch_active =
     [(''name'', PStr ''IPA''), (''devices'', PList [PStr ''d1'']), (''enabled'', PBool True),
      (''archived'', PBool False), (''end'', PNone), (''updatedAt'', PStr ''2024-06-01'')]"

definition batch_disabled :: pydict where
  "batch_disabled =
     [(''name'', PStr ''Stout''), (''devices'', PList [PStr ''d1'']), (''enabled'', PBool False),
      (''updatedAt'', PStr ''2025-01-01'')]"

definition batch_older :: pydict where
  "batch_older =
     [(''name'', PStr ''Pils''), (''devices'', PList [PStr ''d1'']), (''enabled'', PBool True),
      (''archived'', PBool False), (''end'', PNone), (''updatedAt'', PStr ''2024-05-01'')]"

definition batch_bare :: pydict where
  "batch_bare = [(''name'', PStr ''Lager''), (''devices'', PList [PStr ''d1''])]"





definition reading_gravity_points :: ReadingDef where
  "reading_gravity_points =
     \<lparr>key = ''gravity_points'', name = ''Gravity Points'', unit = Some ''pts'',
      device_class = None, state_class = Some MEASUREMENT\<rparr>"

definition reading_time :: ReadingDef where
  "reading_time =
     \<lparr>key = ''time'', name = ''Last Reading'', unit = None,
      device_class = Some TIMESTAMP, state_class = None\<rparr>"

text \<open>A poll result with one device, whose gravity is the float \<^verbatim>\<open>1.0487\<close>.\<close>

definition data_10487 :: pydict where
  "data_10487 =
     [(''d1'', PDict [(''name'', PStr ''Plaato d1''), (''density'', PFloat (round64 (10487 / 10000))),
                     (''time'', PStr ''2024-06-01T12:00:00Z'')])]"

definition payload_10487 :: pydict where
  "payload_10487 =
     [(''name'', PStr ''Plaato d1''), (''density'', PFloat (round64 (10487 / 10000))),
      (''time'', PStr ''2024-06-01T12:00:00Z'')]"

text \<open>
  A server whose first answer for the latest reading of \<^verbatim>\<open>d1\<close> is the empty list and whose
  answer to the second candidate holds a reading. It answers \<^verbatim>\<open>/devices\<close> with the single
  device \<^verbatim>\<open>d1\<close> and fails every other request.
\<close>

definition server_empty_then_reading :: server where
  "server_empty_then_reading lg req =
     (if req = (''/devices'', []) then Inr (PList [PDict [(''id'', PStr ''d1'')]])
      else if req = (''/devices/d1/readings'', [(''limit'', 1)]) then Inr (PList [])
      else if req = (''/devices/d1/readings'', [(''take'', 1)])
        then Inr (PList [PDict [(''temperature'', PInt 20), (''density'', PFloat (Finite 1))]])
      else Inl ClientError)"

text \<open>
  A library for the timestamp examples: its \<^verbatim>\<open>fromisoformat\<close> reads the one string
  \<^verbatim>\<open>2024-06-01T12:00:00+00:00\<close>, as Python does, and fails on every other string.
\<close>

definition noon_utc :: datetime where
  "noon_utc =
     \<lparr>year = 2024, month = 6, day = 1, hour = 12, minute = 0, second = 0, microsecond = 0,
      utcoffset = Some 0\<rparr>"

definition iso_lib :: pylib where
  "iso_lib =
     \<lparr>repr_of = (\<lambda>v. []), float_of_str = (\<lambda>s. None), round_ndigits = (\<lambda>f n. f),
      fromisoformat = (\<lambda>s. if s = ''2024-06-01T12:00:00+00:00'' then Some noon_utc else None)\<rparr>"

definition data_bad_time :: pydict where
  "data_bad_time = [(''d1'', PDict [(''name'', PStr ''Plaato d1''), (''time'', PStr ''not-a-date'')])]"

text \<open>The keys of the dict literal that \<^verbatim>\<open>fetch_readings\<close> stores for a device.\<close>

definition record_keys :: "string list" where
  "record_keys =
     [''name'', ''batteryLevel'', ''wifiStrength'', ''temperature'', ''density'', ''time'',
      ''fermenter'', ''batch'']"

text \<open>A device entry that the loop skips: a dict whose \<^verbatim>\<open>id\<close> is missing or falsy.\<close>

definition id_missing :: "pyval \<Rightarrow> bool" where
  "id_missing dev = (case dev of PDict d \<Rightarrow> \<not> truthy (dict_get d ''id'') | _ \<Rightarrow> False)"

text \<open>A server that answers \<^verbatim>\<open>/devices\<close> and fails every other request.\<close>

definition server_devices_only :: "pyval \<Rightarrow> server" where
  "server_devices_only devices lg req =
     (if req = (''/devices'', []) then Inr devices else Inl ClientError)"

text \<open>The requests of a poll cycle up to the loop over the devices.\<close>

definition collection_requests :: "request list" where
  "collection_requests =
     [(''/devices'', []), (''/fermenters'', []), (''/batches'', []),
      (''/batches'', [(''limit'', 200)]), (''/batches'', [(''take'', 200)]),
      (''/batches'', [(''pageSize'', 200), (''page'', 1)])]"

text \<open>The record of a device for which no reading is found.\<close>

definition empty_record :: "pyval \<Rightarrow> pyval" where
  "empty_record n =
     PDict
       [(''name'', n), (''batteryLevel'', PNone), (''wifiStrength'', PNone),
        (''temperature'', PNone), (''density'', PNone), (''time'', PNone),
        (''fermenter'', PNone), (''batch'', PNone)]"

definition device_d1 :: "pyval \<Rightarrow> pyval" where
  "device_d1 n = PDict [(''id'', PStr ''d1''), (''name'', n)]"

text \<open>A server on which every request fails.\<close>

definition server_down :: server where
  "server_down lg req = Inl TimeoutError"

text \<open>
  A \<^verbatim>\<open>/devices\<close> response with one usable entry and entries whose \<^verbatim>\<open>id\<close> is absent, empty,
  zero and null.
\<close>

definition devices_mixed :: "pyval list" where
  "devices_mixed =
     [device_d1 (PStr ''Fermenter 1''), PDict [(''name'', PStr ''no id'')],
      PDict [(''id'', PStr []), (''name'', PStr ''empty id'')],
      PDict [(''id'', PInt 0), (''name'', PStr ''zero id'')],
      PDict [(''id'', PNone), (''name'', PStr ''null id'')]]"


section \<open>Properties of the batch rank\<close>

lemma batch_rank_less_iff:
  "batch_rank lib b < batch_rank lib a \<longleftrightarrow> spec_outranks lib a b"
  by (auto simp: batch_rank_def spec_outranks_def spec_enabled_def spec_not_archived_def
      spec_not_ended_def spec_recency_def py_or_def Let_def)

lemma batch_rank_recency: "snd (snd (snd (batch_rank lib b))) = spec_recency lib b"
  by (simp add: batch_rank_def spec_recency_def py_or_def Let_def)

lemma batch_device_ids_nonempty_dict:
  "did \<in> set (batch_device_ids lib b) \<Longrightarrow> b \<noteq> []"
  by (auto simp: batch_device_ids_def dict_get_def)

lemma add_batch_apply:
  "add_batch lib batch m did =
     (if did \<in> set (batch_device_ids lib batch) \<and> replaces lib batch (m did)
      then Some batch else m did)"
proof -
  have "fold (\<lambda>did m. if replaces lib batch (m did) then m(did \<mapsto> batch) else m) ids m did =
     (if did \<in> set ids \<and> replaces lib batch (m did) then Some batch else m did)" for ids
  proof (induction ids arbitrary: m)
    case Nil
    then show ?case by simp
  next
    case (Cons a ids)
    then show ?case by (auto simp: replaces_def)
  qed
  then show ?thesis by (simp add: add_batch_def)
qed

lemma best_inv_step:
  assumes "best_inv lib seen m"
  shows "best_inv lib (seen @ [batch]) (add_batch lib batch m)"
  unfolding best_inv_def
proof
  fix did
  from assms have I: "case m did of
        None \<Rightarrow> (\<forall>b \<in> set seen. did \<notin> set (batch_device_ids lib b))
      | Some b \<Rightarrow> b \<in> set seen \<and> did \<in> set (batch_device_ids lib b) \<and>
          (\<forall>b' \<in> set seen. did \<in> set (batch_device_ids lib b') \<longrightarrow>
             batch_rank lib b' \<le> batch_rank lib b)"
    by (simp add: best_inv_def)
  show "case add_batch lib batch m did of
        None \<Rightarrow> (\<forall>b \<in> set (seen @ [batch]). did \<notin> set (batch_device_ids lib b))
      | Some b \<Rightarrow> b \<in> set (seen @ [batch]) \<and> did \<in> set (batch_device_ids lib b) \<and>
          (\<forall>b' \<in> set (seen @ [batch]). did \<in> set (batch_device_ids lib b') \<longrightarrow>
             batch_rank lib b' \<le> batch_rank lib b)"
    using I batch_device_ids_nonempty_dict[of did lib]
    by (cases "m did") (auto simp: add_batch_apply replaces_def)
qed

lemma best_inv_fold:
  "best_inv lib seen m \<Longrightarrow> best_inv lib (seen @ batches) (fold (add_batch lib) batches m)"
proof (induction batches arbitrary: seen m)
  case Nil
  then show ?case by simp
next
  case (Cons b bs)
  from Cons.IH[OF best_inv_step[OF Cons.prems, of b]] show ?case by simp
qed

lemma best_inv_final: "best_inv lib batches (device_id_to_best_batch lib batches)"
  using best_inv_fold[of lib "[]" Map.empty batches]
  by (simp add: device_id_to_best_batch_def best_inv_def)

lemma batch_rank_disabled_less:
  assumes "dict_get b ''enabled'' = PBool False" and "dict_get a ''enabled'' \<noteq> PBool False"
  shows "batch_rank lib b < batch_rank lib a"
  using assms by (simp add: batch_rank_def Let_def)

text \<open>
  Claim C2. \<open>batch_rank\<close> orders batches as the specification says: enabled (anything but
  \<^verbatim>\<open>False\<close>, a missing field included) beats \<^verbatim>\<open>enabled=False\<close>, then not archived beats
  archived, then not ended beats ended, then the greater recency string wins. For every list
  of batches and every device id, the association built by \<^verbatim>\<open>fetch_readings\<close> holds no batch
  when no batch names the device, and otherwise one batch of the list that names the device
  and that no batch naming the device outranks. A batch with \<^verbatim>\<open>enabled=True\<close>,
  \<^verbatim>\<open>archived=False\<close>, \<^verbatim>\<open>end=None\<close> outranks every batch with \<^verbatim>\<open>enabled=False\<close>, whatever the
  recency strings. The recency string is that of \<^verbatim>\<open>updatedAt\<close>, else \<^verbatim>\<open>start\<close>, else
  \<^verbatim>\<open>createdAt\<close>; between two batches equal on the three flags the one with the greater
  recency string is the higher, so of two such batches with the \<^verbatim>\<open>updatedAt\<close> strings \<open>s\<close> and
  \<open>t\<close> the one with the greater string.
\<close>

theorem batch_rank_order_and_best_batch:
  "(batch_rank lib b < batch_rank lib a \<longleftrightarrow> spec_outranks lib a b)
   \<and> (case device_id_to_best_batch lib batches did of
        None \<Rightarrow> (\<forall>x \<in> set batches. did \<notin> set (batch_device_ids lib x))
      | Some best \<Rightarrow> best \<in> set batches \<and> did \<in> set (batch_device_ids lib best) \<and>
          (\<forall>x \<in> set batches. did \<in> set (batch_device_ids lib x) \<longrightarrow>
             batch_rank lib x \<le> batch_rank lib best))
   \<and> (dict_get a ''enabled'' = PBool True \<and> dict_get a ''archived'' = PBool False
        \<and> dict_get a ''end'' = PNone \<and> dict_get b ''enabled'' = PBool False
       \<longrightarrow> batch_rank lib b < batch_rank lib a)
   \<and> snd (snd (snd (batch_rank lib a))) = spec_recency lib a
   \<and> (spec_enabled a = spec_enabled b \<and> spec_not_archived a = spec_not_archived b
        \<and> spec_not_ended a = spec_not_ended b
       \<longrightarrow> (batch_rank lib b < batch_rank lib a \<longleftrightarrow> spec_recency lib b < spec_recency lib a))
   \<and> (spec_enabled a = spec_enabled b \<and> spec_not_archived a = spec_not_archived b
        \<and> spec_not_ended a = spec_not_ended b
        \<and> dict_get a ''updatedAt'' = PStr s \<and> s \<noteq> [] \<and> dict_get b ''updatedAt'' = PStr t \<and> t \<noteq> []
       \<longrightarrow> (batch_rank lib b < batch_rank lib a \<longleftrightarrow> t < s))"
proof (intro conjI)
  show "batch_rank lib b < batch_rank lib a \<longleftrightarrow> spec_outranks lib a b"
    by (rule batch_rank_less_iff)
next
  from best_inv_final[of lib batches]
  show "case device_id_to_best_batch lib batches did of
        None \<Rightarrow> (\<forall>x \<in> set batches. did \<notin> set (batch_device_ids lib x))
      | Some best \<Rightarrow> best \<in> set batches \<and> did \<in> set (batch_device_ids lib best) \<and>
          (\<forall>x \<in> set batches. did \<in> set (batch_device_ids lib x) \<longrightarrow>
             batch_rank lib x \<le> batch_rank lib best)"
    unfolding best_inv_def by blast
next
  show "dict_get a ''enabled'' = PBool True \<and> dict_get a ''archived'' = PBool False
        \<and> dict_get a ''end'' = PNone \<and> dict_get b ''enabled'' = PBool False
       \<longrightarrow> batch_rank lib b < batch_rank lib a"
    by (simp add: batch_rank_disabled_less)
next
  show "snd (snd (snd (batch_rank lib a))) = spec_recency lib a"
    by (rule batch_rank_recency)
next
  show "spec_enabled a = spec_enabled b \<and> spec_not_archived a = spec_not_archived b
        \<and> spec_not_ended a = spec_not_ended b
       \<longrightarrow> (batch_rank lib b < batch_rank lib a \<longleftrightarrow> spec_recency lib b < spec_recency lib a)"
    by (simp add: batch_rank_less_iff spec_outranks_def)
next
  show "spec_enabled a = spec_enabled b \<and> spec_not_archived a = spec_not_archived b
        \<and> spec_not_ended a = spec_not_ended b
        \<and> dict_get a ''updatedAt'' = PStr s \<and> s \<noteq> [] \<and> dict_get b ''updatedAt'' = PStr t \<and> t \<noteq> []
       \<longrightarrow> (batch_rank lib b < batch_rank lib a \<longleftrightarrow> t < s)"
    by (simp add: batch_rank_less_iff spec_outranks_def spec_recency_def)
qed

theorem batch_rank_order_and_best_batch_witness:
  "batch_rank bare_lib batch_disabled < batch_rank bare_lib batch_active
   \<and> spec_outranks bare_lib batch_active batch_disabled
   \<and> device_id_to_best_batch bare_lib [batch_disabled, batch_active] ''d1'' = Some batch_active
   \<and> dict_get batch_active ''enabled'' = PBool True
   \<and> dict_get batch_disabled ''enabled'' = PBool False
   \<and> dict_get batch_active ''updatedAt'' = PStr ''2024-06-01''
   \<and> dict_get batch_older ''updatedAt'' = PStr ''2024-05-01''
   \<and> spec_recency bare_lib batch_active = ''2024-06-01''
   \<and> batch_rank bare_lib batch_older < batch_rank bare_lib batch_active
   \<and> device_id_to_best_batch bare_lib [batch_active, batch_older] ''d1'' = Some batch_active
   \<and> device_id_to_best_batch bare_lib [batch_older, batch_active] ''d1'' = Some batch_active"
proof -
  have en: "dict_get batch_active ''enabled'' = PBool True"
    "dict_get batch_active ''archived'' = PBool False"
    "dict_get batch_active ''end'' = PNone"
    "dict_get batch_disabled ''enabled'' = PBool False"
    by (simp_all add: dict_get_def batch_active_def batch_disabled_def)
  have ids: "batch_device_ids bare_lib batch_active = [''d1'']"
    "batch_device_ids bare_lib batch_disabled = [''d1'']"
    by (simp_all add: batch_device_ids_def dict_get_def batch_active_def batch_disabled_def)
  have ne: "batch_active \<noteq> batch_disabled"
    by (simp add: batch_active_def batch_disabled_def)
  note inst = batch_rank_order_and_best_batch
    [where lib = bare_lib and b = batch_disabled and a = batch_active
       and batches = "[batch_disabled, batch_active]" and did = "''d1''"]
  from inst en have less: "batch_rank bare_lib batch_disabled < batch_rank bare_lib batch_active"
    by blast
  with inst have out: "spec_outranks bare_lib batch_active batch_disabled"
    by blast
  from inst ids less ne
  have "device_id_to_best_batch bare_lib [batch_disabled, batch_active] ''d1'' = Some batch_active"
    by (cases "device_id_to_best_batch bare_lib [batch_disabled, batch_active] ''d1''")
       (auto simp: not_less[symmetric])
  note first = this
  have fl: "spec_enabled batch_active = spec_enabled batch_older"
    "spec_not_archived batch_active = spec_not_archived batch_older"
    "spec_not_ended batch_active = spec_not_ended batch_older"
    by (simp_all add: spec_enabled_def spec_not_archived_def spec_not_ended_def dict_get_def
        batch_active_def batch_older_def)
  have up: "dict_get batch_active ''updatedAt'' = PStr ''2024-06-01''"
    "dict_get batch_older ''updatedAt'' = PStr ''2024-05-01''"
    by (simp_all add: dict_get_def batch_active_def batch_older_def)
  have cmp: "''2024-05-01'' < ''2024-06-01''"
    by simp
  have ido: "batch_device_ids bare_lib batch_older = [''d1'']"
    by (simp add: batch_device_ids_def dict_get_def batch_older_def)
  have neo: "batch_active \<noteq> batch_older"
    by (simp add: batch_active_def batch_older_def)
  note tie = batch_rank_order_and_best_batch
    [where lib = bare_lib and b = batch_older and a = batch_active
       and s = "''2024-06-01''" and t = "''2024-05-01''"]
  have nonempty: "''2024-06-01'' \<noteq> []" "''2024-05-01'' \<noteq> []"
    by simp_all
  from tie[where batches = "[]" and did = "[]"] fl up cmp nonempty
  have older: "batch_rank bare_lib batch_older < batch_rank bare_lib batch_active"
    by blast
  from tie[where batches = "[]" and did = "[]"]
  have "snd (snd (snd (batch_rank bare_lib batch_active))) = spec_recency bare_lib batch_active"
    by blast
  then have rec: "spec_recency bare_lib batch_active = ''2024-06-01''"
    by (simp add: batch_rank_def Let_def py_or_def up)
  from tie[where batches = "[batch_active, batch_older]" and did = "''d1''"] ids ido older neo
  have one: "device_id_to_best_batch bare_lib [batch_active, batch_older] ''d1'' = Some batch_active"
    by (cases "device_id_to_best_batch bare_lib [batch_active, batch_older] ''d1''")
       (auto simp: not_less[symmetric])
  from tie[where batches = "[batch_older, batch_active]" and did = "''d1''"] ids ido older neo
  have two: "device_id_to_best_batch bare_lib [batch_older, batch_active] ''d1'' = Some batch_active"
    by (cases "device_id_to_best_batch bare_lib [batch_older, batch_active] ''d1''")
       (auto simp: not_less[symmetric])
  from less out en first up rec older one two show ?thesis by simp
qed

text \<open>
  Claim C9. A batch without the field \<^verbatim>\<open>enabled\<close> ranks as enabled, one without \<^verbatim>\<open>archived\<close>
  as not archived, one without \<^verbatim>\<open>end\<close> as not ended; so a batch with none of the three
  outranks every batch with \<^verbatim>\<open>enabled=False\<close>.
\<close>

theorem batch_rank_missing_flags:
  "(map_of b ''enabled'' = None \<longrightarrow> fst (batch_rank lib b) = 1)
   \<and> (map_of b ''archived'' = None \<longrightarrow> fst (snd (batch_rank lib b)) = 1)
   \<and> (map_of b ''end'' = None \<longrightarrow> fst (snd (snd (batch_rank lib b))) = 1)
   \<and> (map_of b ''enabled'' = None \<and> map_of b ''archived'' = None \<and> map_of b ''end'' = None
        \<and> dict_get c ''enabled'' = PBool False
       \<longrightarrow> batch_rank lib c < batch_rank lib b
           \<and> (\<exists>r. batch_rank lib b = (1, 1, 1, r)))"
  by (auto simp: batch_rank_def Let_def dict_get_def)

theorem batch_rank_missing_flags_witness:
  "map_of batch_bare ''enabled'' = None \<and> map_of batch_bare ''archived'' = None
   \<and> map_of batch_bare ''end'' = None \<and> dict_get batch_disabled ''enabled'' = PBool False
   \<and> fst (batch_rank bare_lib batch_bare) = 1
   \<and> fst (snd (batch_rank bare_lib batch_bare)) = 1
   \<and> fst (snd (snd (batch_rank bare_lib batch_bare))) = 1
   \<and> batch_rank bare_lib batch_disabled < batch_rank bare_lib batch_bare"
proof -
  have h: "map_of batch_bare ''enabled'' = None" "map_of batch_bare ''archived'' = None"
    "map_of batch_bare ''end'' = None" "dict_get batch_disabled ''enabled'' = PBool False"
    by (simp_all add: batch_bare_def batch_disabled_def dict_get_def)
  from batch_rank_missing_flags[of batch_bare bare_lib batch_disabled] h
  show ?thesis by blast
qed


section \<open>Device to fermenter name\<close>












section \<open>Floats\<close>

lemma bitlen_powi_bounds:
  assumes "0 < (n::int)"
  shows "(2::rat) powi (bitlen n - 1) \<le> of_int n" "of_int n < (2::rat) powi (bitlen n)"
proof -
  from bitlen_bounds[OF assms]
  have a: "2 ^ nat (bitlen n - 1) \<le> n" and b: "n < 2 ^ nat (bitlen n)" by auto
  have ge1: "1 \<le> bitlen n" using assms bitlen_eq_zero_iff[of n] bitlen_nonneg[of n] by linarith
  have "(of_int (2 ^ nat (bitlen n - 1)) :: rat) \<le> of_int n"
    using a of_int_le_iff by blast
  then show "(2::rat) powi (bitlen n - 1) \<le> of_int n"
    using ge1 by (simp add: power_int_def)
  have "(of_int n :: rat) < of_int (2 ^ nat (bitlen n))"
    using b of_int_less_iff by blast
  then show "of_int n < (2::rat) powi (bitlen n)"
    using ge1 by (simp add: power_int_def)
qed

lemma ilog2_bounds:
  assumes "0 < q"
  shows "2 powi (ilog2 q) \<le> q \<and> q < 2 powi (ilog2 q + 1)"
proof -
  obtain n d where nd: "quotient_of q = (n, d)" by (cases "quotient_of q")
  have q: "q = of_int n / of_int d" by (rule quotient_of_div[OF nd])
  have d: "0 < d" by (rule quotient_of_denom_pos[OF nd])
  have n: "0 < n" using assms q d by (simp add: zero_less_divide_iff)
  define A :: rat where "A = 2 powi (bitlen n - 1)"
  define B :: rat where "B = 2 powi (bitlen d - 1)"
  have Apos: "0 < A" and Bpos: "0 < B" by (simp_all add: A_def B_def)
  have nA: "A \<le> of_int n" "of_int n < 2 * A"
    using bitlen_powi_bounds[OF n] by (simp_all add: A_def power_int_diff)
  have dB: "B \<le> of_int d" "of_int d < 2 * B"
    using bitlen_powi_bounds[OF d] by (simp_all add: B_def power_int_diff)
  have e: "(2::rat) powi (bitlen n - bitlen d) = A / B"
    by (simp add: A_def B_def power_int_diff)
  have e1: "(2::rat) powi (bitlen n - bitlen d + 1) = 2 * A / B"
    by (simp add: A_def B_def power_int_diff power_int_add)
  have em: "(2::rat) powi (bitlen n - bitlen d - 1) = A / (2 * B)"
    by (simp add: A_def B_def power_int_diff)
  have dpos: "(0::rat) < of_int d" using d by simp
  have up: "q < 2 * A / B"
  proof -
    have "of_int n * B < (2 * A) * of_int d"
      using nA dB Apos Bpos dpos by (intro mult_less_le_imp_less) auto
    then show ?thesis using Bpos dpos by (simp add: q field_simps)
  qed
  have lo: "A / (2 * B) \<le> q"
  proof -
    have "A * of_int d \<le> of_int n * (2 * B)"
      using nA dB Apos Bpos dpos by (intro mult_mono) auto
    then show ?thesis using Bpos dpos by (simp add: q field_simps)
  qed
  show ?thesis
    using up lo by (auto simp: ilog2_def nd Let_def e e1 em not_le)
qed

lemma powi2_mono: "a \<le> b \<Longrightarrow> (2::rat) powi a \<le> 2 powi b"
  by (rule power_int_increasing) auto

lemma ilog2_unique:
  assumes "0 < q" "2 powi e \<le> q" "q < 2 powi (e + 1)"
  shows "ilog2 q = e"
proof (rule ccontr)
  assume ne: "ilog2 q \<noteq> e"
  from ilog2_bounds[OF assms(1)]
  have b: "2 powi (ilog2 q) \<le> q" "q < 2 powi (ilog2 q + 1)" by auto
  show False
  proof (cases "ilog2 q < e")
    case True
    then have "(2::rat) powi (ilog2 q + 1) \<le> 2 powi e" by (intro powi2_mono) auto
    with b assms show False by linarith
  next
    case False
    with ne have "(2::rat) powi (e + 1) \<le> 2 powi (ilog2 q)" by (intro powi2_mono) auto
    with b assms show False by linarith
  qed
qed

text \<open>How \<open>round64\<close> is computed once the binade of the argument is known.\<close>

lemma round64_eval:
  assumes "q \<noteq> 0" "2 powi e \<le> \<bar>q\<bar>" "\<bar>q\<bar> < 2 powi (e + 1)" "- 1022 \<le> e"
  shows "round64 q =
     (let u = 2 powi (e - 52); r = of_int (round_half_even (q / u)) * u
      in if 2 powi 1024 \<le> \<bar>r\<bar> then (if 0 < q then PosInf else NegInf) else Finite r)"
proof -
  have "ilog2 \<bar>q\<bar> = e" using assms by (intro ilog2_unique) auto
  then show ?thesis using assms by (simp add: round64_def max_def)
qed

lemma round_half_even_eq:
  assumes "of_int n - 1 / 2 < q" "q < of_int n + 1 / 2"
  shows "round_half_even q = n"
proof -
  have "\<lfloor>q\<rfloor> = n \<or> \<lfloor>q\<rfloor> = n - 1" using assms by linarith
  then show ?thesis
  proof
    assume f: "\<lfloor>q\<rfloor> = n"
    then show ?thesis using assms by (simp add: round_half_even_def Let_def)
  next
    assume f: "\<lfloor>q\<rfloor> = n - 1"
    then show ?thesis using assms by (simp add: round_half_even_def Let_def)
  qed
qed

lemma round_half_even_int [simp]: "round_half_even (of_int n) = n"
  by (simp add: round_half_even_def)

lemma round_half_even_ge:
  assumes "of_int n \<le> q"
  shows "n \<le> round_half_even q"
proof -
  have "n \<le> \<lfloor>q\<rfloor>" using assms by (simp add: le_floor_iff)
  then show ?thesis by (auto simp: round_half_even_def Let_def)
qed

text \<open>A value binary64 represents is its own rounding.\<close>

lemma round64_exact:
  assumes "q \<noteq> 0" "2 powi e \<le> \<bar>q\<bar>" "\<bar>q\<bar> < 2 powi (e + 1)" "- 1022 \<le> e" "e < 1024"
    and "q = of_int n * 2 powi (e - 52)"
  shows "round64 q = Finite q"
proof -
  have "q / 2 powi (e - 52) = of_int n" using assms(6) by simp
  then have rh: "round_half_even (q / 2 powi (e - 52)) = n" by simp
  have "(2::rat) powi (e + 1) \<le> 2 powi 1024" using assms(5) by (intro powi2_mono) simp
  with assms(3) have small: "\<not> 2 powi 1024 \<le> \<bar>q\<bar>" by linarith
  have "round64 q =
     (let u = 2 powi (e - 52); r = of_int (round_half_even (q / u)) * u
      in if 2 powi 1024 \<le> \<bar>r\<bar> then (if 0 < q then PosInf else NegInf) else Finite r)"
    by (rule round64_eval[OF assms(1-4)])
  also have "\<dots> = (if 2 powi 1024 \<le> \<bar>q\<bar> then (if 0 < q then PosInf else NegInf) else Finite q)"
    by (simp only: Let_def rh assms(6)[symmetric])
  also have "\<dots> = Finite q" using small by (simp only: if_False)
  finally show ?thesis .
qed

text \<open>An \<^verbatim>\<open>int\<close> from \<open>2 ^ 1024\<close> on has no float: \<^verbatim>\<open>float\<close> raises \<^verbatim>\<open>OverflowError\<close>.\<close>

lemma float_of_int_overflow:
  assumes "2 ^ 1024 \<le> i"
  shows "float_of_int i = Inl OverflowError"
proof -
  define q :: rat where "q = of_int i"
  have big: "2 powi 1024 \<le> q"
  proof -
    have "(of_int (2 ^ 1024) :: rat) \<le> of_int i" using assms of_int_le_iff by blast
    then show ?thesis by (simp add: q_def)
  qed
  have "(0::rat) < 2 powi 1024" by simp
  with big have pos: "0 < q" by linarith
  define e where "e = ilog2 q"
  from ilog2_bounds[OF pos] have lo: "2 powi e \<le> q" and hi: "q < 2 powi (e + 1)"
    by (simp_all add: e_def)
  have e1024: "1024 \<le> e"
  proof (rule ccontr)
    assume "\<not> 1024 \<le> e"
    then have "(2::rat) powi (e + 1) \<le> 2 powi 1024" by (intro powi2_mono) simp
    with hi big show False by linarith
  qed
  define u :: rat where "u = 2 powi (e - 52)"
  have upos: "0 < u" by (simp add: u_def)
  have "2 powi e = of_int (2 ^ 52) * u"
    by (simp add: u_def power_int_diff)
  with lo have "of_int (2 ^ 52) \<le> q / u" using upos by (simp add: field_simps)
  then have "2 ^ 52 \<le> round_half_even (q / u)" by (rule round_half_even_ge)
  then have "(of_int (2 ^ 52) :: rat) \<le> of_int (round_half_even (q / u))"
    using of_int_le_iff by blast
  then have "of_int (2 ^ 52) * u \<le> of_int (round_half_even (q / u)) * u"
    using upos by (simp only: mult_le_cancel_right_pos)
  then have r: "2 powi e \<le> of_int (round_half_even (q / u)) * u"
    by (simp add: u_def power_int_diff)
  have "(2::rat) powi 1024 \<le> 2 powi e" using e1024 by (rule powi2_mono)
  with r have rbig: "2 powi 1024 \<le> \<bar>of_int (round_half_even (q / u)) * u\<bar>" by linarith
  have m: "max (ilog2 \<bar>q\<bar>) (- 1022) = e" using pos e1024 by (simp add: e_def max_def)
  have "round64 q = PosInf"
    using pos rbig m
    by (simp add: round64_def Let_def u_def del: power_int_numeral)
  then show ?thesis by (simp add: float_of_int_def q_def)
qed

text \<open>The float \<^verbatim>\<open>1.0487\<close> and the steps of \<^verbatim>\<open>round((1.0487 - 1.0) * 1000)\<close>.\<close>

lemma round64_10487: "round64 (10487 / 10000) = Finite (4722924929223439 / 4503599627370496)"
proof -
  have rh: "round_half_even (10487 / 10000 / 2 powi (0 - 52)) = 4722924929223439"
    by (rule round_half_even_eq) (simp_all add: power_int_minus)
  have "round64 (10487 / 10000) =
     (let u = 2 powi (0 - 52); r = of_int (round_half_even (10487 / 10000 / u)) * u
      in if 2 powi 1024 \<le> \<bar>r\<bar> then (if (0::rat) < 10487 / 10000 then PosInf else NegInf)
         else Finite r)"
    by (rule round64_eval) simp_all
  also have "\<dots> = Finite (4722924929223439 / 4503599627370496)"
    by (simp only: Let_def rh) (simp add: power_int_minus)
  finally show ?thesis .
qed

lemma fsub_10487: "fsub (Finite (4722924929223439 / 4503599627370496)) (Finite 1)
   = Finite (219325301852943 / 4503599627370496)"
proof -
  have q: "(4722924929223439 / 4503599627370496 - 1 :: rat) = 219325301852943 / 4503599627370496"
    by simp
  have "round64 (219325301852943 / 4503599627370496) = Finite (219325301852943 / 4503599627370496)"
    by (rule round64_exact[where e = "- 5" and n = 7018409659294176])
       (simp_all add: power_int_minus)
  then show ?thesis
    unfolding fsub.simps q .
qed

lemma fmul_10487: "fmul (Finite (219325301852943 / 4503599627370496)) (Finite 1000)
   = Finite (6853915682904469 / 140737488355328)"
proof -
  have rh: "round_half_even (219325301852943 / 4503599627370496 * 1000 / 2 powi (5 - 52)) = 6853915682904469"
    by (rule round_half_even_eq) (simp_all add: power_int_minus)
  have "round64 (219325301852943 / 4503599627370496 * 1000) =
     (let u = 2 powi (5 - 52);
          r = of_int (round_half_even (219325301852943 / 4503599627370496 * 1000 / u)) * u
      in if 2 powi 1024 \<le> \<bar>r\<bar>
         then (if (0::rat) < 219325301852943 / 4503599627370496 * 1000 then PosInf else NegInf)
         else Finite r)"
    by (rule round64_eval) simp_all
  also have "\<dots> = Finite (6853915682904469 / 140737488355328)"
    by (simp only: Let_def rh) (simp add: power_int_minus)
  finally show ?thesis by simp
qed

lemma py_round_10487: "py_round (Finite (6853915682904469 / 140737488355328)) = Inr (PInt 49)"
proof -
  have "round_half_even (6853915682904469 / 140737488355328) = 49"
    by (rule round_half_even_eq) simp_all
  then show ?thesis by simp
qed

lemma points_of_10487: "points_of (round64 (10487 / 10000)) = Inr (PInt 49)"
  by (simp only: points_of_def round64_10487 fsub_10487 fmul_10487 py_round_10487)

lemma points_of_1: "points_of (Finite 1) = Inr (PInt 0)"
  by (simp add: points_of_def round64_def round_half_even_def)


section \<open>The permissive float parser\<close>

lemma as_float_cases:
  "as_float lib PNone = Inr PNone"
  "as_float lib (PFloat f) = Inr (PFloat f)"
  "as_float lib (PBool b) = Inr (PFloat (Finite (if b then 1 else 0)))"
  "as_float lib (PInt i) = (case float_of_int i of Inl e \<Rightarrow> Inl e | Inr f \<Rightarrow> Inr (PFloat f))"
  "as_float lib (PStr s) =
     (case float_of_str lib (py_strip s) of None \<Rightarrow> Inr PNone | Some f \<Rightarrow> Inr (PFloat f))"
  "as_float lib (PList xs) = Inr PNone"
  "as_float lib (PDict d) = Inr PNone"
  "as_float lib (PDatetime t) = Inr PNone"
  by (simp_all add: as_float_def float_of_number_def)

text \<open>
  Claim C3, at the input where the code leaves it. \<^verbatim>\<open>as_float\<close> guards \<^verbatim>\<open>float(v.strip())\<close>
  with \<^verbatim>\<open>try\<close> and leaves \<^verbatim>\<open>float(v)\<close> of an \<^verbatim>\<open>int\<close> unguarded: on the integer \<open>10 ^ 400\<close>,
  which a JSON document can hold, it raises \<^verbatim>\<open>OverflowError\<close>.
\<close>

theorem as_float_raises_on_huge_int: "as_float lib (PInt (10 ^ 400)) = Inl OverflowError"
proof -
  have "float_of_int (10 ^ 400) = Inl OverflowError"
    by (rule float_of_int_overflow) simp
  then show ?thesis by (simp add: as_float_cases)
qed

section \<open>Gravity points\<close>

text \<open>
  Claim C7. For a device record, the gravity-points sensor gives
  \<^verbatim>\<open>round((gravity - 1.0) * 1000)\<close>, computed in floats as \<open>points_of\<close>, when the record's
  \<^verbatim>\<open>density\<close> is a float, an int (converted by \<^verbatim>\<open>float\<close>) or a string that \<^verbatim>\<open>float\<close> reads
  once stripped; it gives \<^verbatim>\<open>None\<close> when the density is absent or \<^verbatim>\<open>None\<close>, a string that
  \<^verbatim>\<open>float\<close> does not read, a list or a dict. Gravity \<^verbatim>\<open>1.0487\<close> gives 49 and gravity
  \<^verbatim>\<open>1.0\<close> gives 0.
\<close>

theorem gravity_points_value:
  assumes "key reading = ''gravity_points''"
    and "device_payload data device_id = PDict payload"
  shows
    "(dict_get payload ''density'' = PNone \<longrightarrow>
        native_value lib reading data device_id = Inr PNone)
     \<and> (dict_get payload ''density'' = PFloat f \<longrightarrow>
        native_value lib reading data device_id = points_of f)
     \<and> (dict_get payload ''density'' = PInt i \<longrightarrow>
        native_value lib reading data device_id =
          (case float_of_int i of Inl e \<Rightarrow> Inl e | Inr x \<Rightarrow> points_of x))
     \<and> (dict_get payload ''density'' = PStr s \<and> float_of_str lib (py_strip s) = Some f \<longrightarrow>
        native_value lib reading data device_id = points_of f)
     \<and> (dict_get payload ''density'' = PStr s \<and> float_of_str lib (py_strip s) = None \<longrightarrow>
        native_value lib reading data device_id = Inr PNone)
     \<and> (dict_get payload ''density'' = PList xs \<longrightarrow>
        native_value lib reading data device_id = Inr PNone)
     \<and> (dict_get payload ''density'' = PDict d \<longrightarrow>
        native_value lib reading data device_id = Inr PNone)
     \<and> (dict_get payload ''density'' = PFloat (round64 (10487 / 10000)) \<longrightarrow>
        native_value lib reading data device_id = Inr (PInt 49))
     \<and> (dict_get payload ''density'' = PFloat (Finite 1) \<longrightarrow>
        native_value lib reading data device_id = Inr (PInt 0))"
proof -
  have nv: "native_value lib reading data device_id =
      gravity_points lib (dict_get payload ''density'')"
    using assms by (simp add: native_value_def)
  show ?thesis
    unfolding nv
    by (auto simp: gravity_points_def float_of_number_def points_of_10487 points_of_1)
qed

theorem gravity_points_value_witness:
  "key reading_gravity_points = ''gravity_points''
   \<and> device_payload (Some data_10487) ''d1'' = PDict payload_10487
   \<and> dict_get payload_10487 ''density'' = PFloat (round64 (10487 / 10000))
   \<and> native_value bare_lib reading_gravity_points (Some data_10487) ''d1'' = Inr (PInt 49)
   \<and> native_value bare_lib reading_gravity_points (Some data_10487) ''d1''
       = points_of (round64 (10487 / 10000))"
proof -
  have k: "key reading_gravity_points = ''gravity_points''"
    by (simp add: reading_gravity_points_def)
  have p: "device_payload (Some data_10487) ''d1'' = PDict payload_10487"
    by (simp add: device_payload_def data_10487_def payload_10487_def dict_get_def py_or_def)
  have g: "dict_get payload_10487 ''density'' = PFloat (round64 (10487 / 10000))"
    by (simp add: payload_10487_def dict_get_def)
  from gravity_points_value[OF k p, where f = "round64 (10487 / 10000)" and lib = bare_lib] g
  have "native_value bare_lib reading_gravity_points (Some data_10487) ''d1'' = Inr (PInt 49)"
    and "native_value bare_lib reading_gravity_points (Some data_10487) ''d1''
       = points_of (round64 (10487 / 10000))"
    by blast+
  with k p g show ?thesis by blast
qed


section \<open>The secondary lookup\<close>

lemma get_latest_reading_first_answer:
  assumes "srv lg (''/devices/'' @ device_id @ ''/readings'', [(''limit'', 1)]) = Inr data"
  shows "get_latest_reading srv lg device_id =
     (reading_of_response data, lg @ [(''/devices/'' @ device_id @ ''/readings'', [(''limit'', 1)])])"
  using assms by (simp add: get_latest_reading_def candidates_def http_get_def)

text \<open>
  Claim C1, at the input where the code leaves it. The first candidate answers with the empty
  list and the second would answer with a reading: \<^verbatim>\<open>_get_latest_reading\<close> returns \<^verbatim>\<open>None\<close>
  after the first request and never makes the second, because every path of the loop body
  after a request that did not raise returns.
\<close>

theorem get_latest_reading_stops_at_empty_list:
  "get_latest_reading server_empty_then_reading [] ''d1''
     = (PNone, [(''/devices/d1/readings'', [(''limit'', 1)])])
   \<and> server_empty_then_reading [(''/devices/d1/readings'', [(''limit'', 1)])]
        (''/devices/d1/readings'', [(''take'', 1)])
     = Inr (PList [PDict [(''temperature'', PInt 20), (''density'', PFloat (Finite 1))]])"
proof -
  have "server_empty_then_reading [] (''/devices/'' @ ''d1'' @ ''/readings'', [(''limit'', 1)])
      = Inr (PList [])"
    by (simp add: server_empty_then_reading_def)
  from get_latest_reading_first_answer
    [where srv = server_empty_then_reading and lg = "[]" and device_id = "''d1''", OF this]
  have "get_latest_reading server_empty_then_reading [] ''d1''
     = (PNone, [(''/devices/d1/readings'', [(''limit'', 1)])])"
    by (simp add: reading_of_response_def)
  then show ?thesis by (simp add: server_empty_then_reading_def)
qed


section \<open>Timestamp readings\<close>

lemma replace_Z_append: "replace_Z (a @ b) = replace_Z a @ replace_Z b"
  by (simp add: replace_Z_def)

text \<open>
  Claim C4. For a reading of device class \<^verbatim>\<open>TIMESTAMP\<close>: a value that is a datetime or
  \<^verbatim>\<open>None\<close> is returned as it is; a string is handed to \<^verbatim>\<open>datetime.fromisoformat\<close> with every
  \<^verbatim>\<open>Z\<close> replaced by \<^verbatim>\<open>+00:00\<close>, so that a trailing \<^verbatim>\<open>Z\<close> reaches the parser as the UTC offset,
  and the value is the datetime the parser returns; when the parser fails, the string is
  returned unchanged. \<^verbatim>\<open>2024-06-01T12:00:00Z\<close> is parsed as \<^verbatim>\<open>2024-06-01T12:00:00+00:00\<close>,
  and \<^verbatim>\<open>not-a-date\<close> reaches the parser unchanged.
\<close>

theorem timestamp_native_value:
  assumes "key reading \<noteq> ''gravity_points''" and "key reading \<noteq> ''density''"
    and "device_class reading = Some TIMESTAMP"
    and "device_payload data device_id = PDict payload"
  shows
    "(dict_get payload (key reading) = PDatetime t \<longrightarrow>
        native_value lib reading data device_id = Inr (PDatetime t))
     \<and> (dict_get payload (key reading) = PNone \<longrightarrow>
        native_value lib reading data device_id = Inr PNone)
     \<and> (dict_get payload (key reading) = PStr s \<and> fromisoformat lib (replace_Z s) = Some t \<longrightarrow>
        native_value lib reading data device_id = Inr (PDatetime t))
     \<and> (dict_get payload (key reading) = PStr s \<and> fromisoformat lib (replace_Z s) = None \<longrightarrow>
        native_value lib reading data device_id = Inr (PStr s))
     \<and> replace_Z (s @ ''Z'') = replace_Z s @ ''+00:00''
     \<and> replace_Z ''2024-06-01T12:00:00Z'' = ''2024-06-01T12:00:00+00:00''
     \<and> replace_Z ''not-a-date'' = ''not-a-date''"
proof -
  have nv: "native_value lib reading data device_id =
      Inr (timestamp_value lib (dict_get payload (key reading)))"
    using assms by (simp add: native_value_def Let_def)
  have "replace_Z (s @ ''Z'') = replace_Z s @ ''+00:00''"
    by (simp add: replace_Z_append) (simp add: replace_Z_def)
  moreover have "replace_Z ''2024-06-01T12:00:00Z'' = ''2024-06-01T12:00:00+00:00''"
    "replace_Z ''not-a-date'' = ''not-a-date''"
    by (simp_all add: replace_Z_def)
  ultimately show ?thesis
    unfolding nv by (simp add: timestamp_value_def)
qed

theorem timestamp_native_value_witness:
  "key reading_time \<noteq> ''gravity_points'' \<and> key reading_time \<noteq> ''density''
   \<and> device_class reading_time = Some TIMESTAMP
   \<and> device_payload (Some data_10487) ''d1'' = PDict payload_10487
   \<and> dict_get payload_10487 (key reading_time) = PStr ''2024-06-01T12:00:00Z''
   \<and> fromisoformat iso_lib (replace_Z ''2024-06-01T12:00:00Z'') = Some noon_utc
   \<and> native_value iso_lib reading_time (Some data_10487) ''d1'' = Inr (PDatetime noon_utc)
   \<and> utcoffset noon_utc = Some 0
   \<and> fromisoformat iso_lib (replace_Z ''not-a-date'') = None
   \<and> native_value iso_lib reading_time (Some data_bad_time) ''d1'' = Inr (PStr ''not-a-date'')"
proof -
  have k: "key reading_time \<noteq> ''gravity_points''" "key reading_time \<noteq> ''density''"
    and c: "device_class reading_time = Some TIMESTAMP"
    by (simp_all add: reading_time_def)
  have p: "device_payload (Some data_10487) ''d1'' = PDict payload_10487"
    by (simp add: device_payload_def data_10487_def payload_10487_def dict_get_def py_or_def)
  have v: "dict_get payload_10487 (key reading_time) = PStr ''2024-06-01T12:00:00Z''"
    by (simp add: payload_10487_def dict_get_def reading_time_def)
  note inst = timestamp_native_value
    [OF k c p, where s = "''2024-06-01T12:00:00Z''" and lib = iso_lib and t = noon_utc]
  from inst have r: "replace_Z ''2024-06-01T12:00:00Z'' = ''2024-06-01T12:00:00+00:00''"
    by blast
  have f: "fromisoformat iso_lib (replace_Z ''2024-06-01T12:00:00Z'') = Some noon_utc"
    unfolding r by (simp add: iso_lib_def)
  from inst v f
  have "native_value iso_lib reading_time (Some data_10487) ''d1'' = Inr (PDatetime noon_utc)"
    by blast
  moreover have p2: "device_payload (Some data_bad_time) ''d1''
      = PDict [(''name'', PStr ''Plaato d1''), (''time'', PStr ''not-a-date'')]"
    by (simp add: device_payload_def data_bad_time_def dict_get_def py_or_def)
  have v2: "dict_get [(''name'', PStr ''Plaato d1''), (''time'', PStr ''not-a-date'')]
      (key reading_time) = PStr ''not-a-date''"
    by (simp add: dict_get_def reading_time_def)
  note inst2 = timestamp_native_value
    [OF k c p2, where s = "''not-a-date''" and lib = iso_lib]
  from inst2 have r2: "replace_Z ''not-a-date'' = ''not-a-date''"
    by blast
  have f2: "fromisoformat iso_lib (replace_Z ''not-a-date'') = None"
    unfolding r2 by (simp add: iso_lib_def)
  from inst2 v2 f2
  have "native_value iso_lib reading_time (Some data_bad_time) ''d1'' = Inr (PStr ''not-a-date'')"
    by blast
  ultimately show ?thesis using k c p v f f2 by (simp add: noon_utc_def)
qed


section \<open>The poll cycle\<close>

lemma make_record_shape:
  "\<exists>fields. make_record fm bm d dev_id r = PDict fields \<and> map fst fields = record_keys
     \<and> truthy (dict_get fields ''name'')"
  by (cases r) (auto simp: make_record_def record_keys_def dict_get_def py_or_def)

lemma set_update_cases:
  "kv \<in> set (AList.update k v al) \<Longrightarrow> kv = (k, v) \<or> kv \<in> set al"
  by (induction al) (auto split: if_splits)

text \<open>
  Where the entries of the output come from: each was there before the loop, or is the record
  made for a device entry with a truthy \<^verbatim>\<open>id\<close>, under the string of that \<^verbatim>\<open>id\<close>.
\<close>

lemma devices_loop_provenance:
  assumes "fst (devices_loop lib srv fm bm devs lg out) = Inr out'"
    and "kv \<in> set out'"
  shows "kv \<in> set out
     \<or> (\<exists>d r. PDict d \<in> set devs \<and> truthy (dict_get d ''id'')
           \<and> fst kv = py_str lib (dict_get d ''id'')
           \<and> snd kv = make_record fm bm d (fst kv) r)"
  using assms
proof (induction devs arbitrary: lg out)
  case Nil
  then show ?case by simp
next
  case (Cons dev devs)
  show ?case
  proof (cases dev)
    case (PDict d)
    show ?thesis
    proof (cases "truthy (dict_get d ''id'')")
      case False
      with Cons.prems PDict have "fst (devices_loop lib srv fm bm devs lg out) = Inr out'"
        by simp
      from Cons.IH[OF this Cons.prems(2)] show ?thesis by auto
    next
      case True
      from Cons.prems(1) PDict True obtain r where er: "embedded_reading lib d = Inr r"
        by (cases "embedded_reading lib d") (auto simp: Let_def)
      obtain res lg' where sl: "secondary_lookup lib srv lg (py_str lib (dict_get d ''id'')) r = (res, lg')"
        by (cases "secondary_lookup lib srv lg (py_str lib (dict_get d ''id'')) r")
      from Cons.prems(1) PDict True er sl obtain r' where r': "res = Inr r'"
        by (cases res) (auto simp: Let_def)
      let ?out = "AList.update (py_str lib (dict_get d ''id''))
          (make_record fm bm d (py_str lib (dict_get d ''id'')) r') out"
      from Cons.prems(1) PDict True er sl r'
      have step: "fst (devices_loop lib srv fm bm devs lg' ?out) = Inr out'"
        by (simp add: Let_def)
      from Cons.IH[OF step Cons.prems(2)]
      have "kv \<in> set ?out
        \<or> (\<exists>d r. PDict d \<in> set devs \<and> truthy (dict_get d ''id'')
              \<and> fst kv = py_str lib (dict_get d ''id'')
              \<and> snd kv = make_record fm bm d (fst kv) r)" .
      then show ?thesis
      proof
        assume "kv \<in> set ?out"
        then have "kv = (py_str lib (dict_get d ''id''),
            make_record fm bm d (py_str lib (dict_get d ''id'')) r') \<or> kv \<in> set out"
          by (rule set_update_cases)
        then show ?thesis
        proof
          assume "kv = (py_str lib (dict_get d ''id''),
            make_record fm bm d (py_str lib (dict_get d ''id'')) r')"
          with PDict True
          have "PDict d \<in> set (dev # devs) \<and> truthy (dict_get d ''id'')
              \<and> fst kv = py_str lib (dict_get d ''id'')
              \<and> snd kv = make_record fm bm d (fst kv) r'"
            by simp
          then show ?thesis by blast
        next
          assume "kv \<in> set out"
          then show ?thesis by simp
        qed
      next
        assume "\<exists>d r. PDict d \<in> set devs \<and> truthy (dict_get d ''id'')
              \<and> fst kv = py_str lib (dict_get d ''id'')
              \<and> snd kv = make_record fm bm d (fst kv) r"
        then show ?thesis by auto
      qed
    qed
  qed (use Cons.prems in simp_all)
qed

lemma devices_loop_skips:
  "devices_loop lib srv fm bm (filter (\<lambda>dev. \<not> id_missing dev) devs) lg out
     = devices_loop lib srv fm bm devs lg out"
proof (induction devs arbitrary: lg out)
  case Nil
  then show ?case by simp
next
  case (Cons dev devs)
  show ?case
  proof (cases "id_missing dev")
    case True
    then obtain d where "dev = PDict d" "\<not> truthy (dict_get d ''id'')"
      by (cases dev) (auto simp: id_missing_def)
    with True Cons show ?thesis by simp
  next
    case False
    show ?thesis
    proof (cases dev)
      case (PDict d)
      with False have t: "truthy (dict_get d ''id'')" by (simp add: id_missing_def)
      show ?thesis
        using False PDict t Cons
        by (simp add: Let_def split: sum.splits prod.splits)
    qed (use False in simp_all)
  qed
qed

lemma iterate_devices_list:
  assumes "iterate_devices devices = Inr devs"
    and "fst (devices_loop lib srv fm bm devs lg []) = Inr out" and "out \<noteq> []"
  shows "devices = PList devs"
proof (cases devices)
  case (PList xs)
  with assms(1) show ?thesis by (cases xs) (simp_all add: iterate_devices_def)
next
  case (PDict d)
  with assms show ?thesis by (cases d) (auto simp: iterate_devices_def)
next
  case (PStr s)
  with assms show ?thesis by (cases s) (auto simp: iterate_devices_def)
qed (use assms in \<open>auto simp: iterate_devices_def split: if_splits\<close>)

lemma fetch_fermenters_fails:
  "srv lg (''/fermenters'', []) = Inl e \<Longrightarrow>
   fetch_fermenters srv lg = ([], lg @ [(''/fermenters'', [])])"
  by (simp add: fetch_fermenters_def http_get_def)

lemma fetch_batches_loop_all_fail:
  "\<forall>lg' params. isl (srv lg' (''/batches'', params)) \<Longrightarrow>
   fetch_batches_loop srv lg ps b = (b, lg @ map (Pair ''/batches'') ps)"
proof (induction ps arbitrary: lg)
  case Nil
  then show ?case by simp
next
  case (Cons p ps)
  from Cons.prems obtain e where "srv lg (''/batches'', p) = Inl e"
    by (metis isl_def)
  with Cons show ?case by (simp add: http_get_def)
qed

lemma fetch_batches_all_fail:
  assumes "\<forall>lg' params. isl (srv lg' (''/batches'', params))"
  shows "fetch_batches srv lg =
     ([], lg @ [(''/batches'', []), (''/batches'', [(''limit'', 200)]),
                (''/batches'', [(''take'', 200)]), (''/batches'', [(''pageSize'', 200), (''page'', 1)])])"
  unfolding fetch_batches_def by (simp only: fetch_batches_loop_all_fail[OF assms]) simp

lemma fetch_readings_provenance:
  assumes "fst (fetch_readings lib srv) = Inr out" and "kv \<in> set out"
  shows "\<exists>devs d r fm bm. srv [] (''/devices'', []) = Inr (PList devs) \<and> PDict d \<in> set devs
     \<and> truthy (dict_get d ''id'') \<and> fst kv = py_str lib (dict_get d ''id'')
     \<and> snd kv = make_record fm bm d (fst kv) r"
proof -
  from assms(1) obtain devices where dv: "srv [] (''/devices'', []) = Inr devices"
    by (cases "srv [] (''/devices'', [])") (auto simp: fetch_readings_def http_get_def)
  obtain fermenters lg2 where ff: "fetch_fermenters srv [(''/devices'', [])] = (fermenters, lg2)"
    by (cases "fetch_fermenters srv [(''/devices'', [])]")
  obtain batches lg3 where fb: "fetch_batches srv lg2 = (batches, lg3)"
    by (cases "fetch_batches srv lg2")
  from assms(1) dv ff fb obtain devs where it: "iterate_devices devices = Inr devs"
    by (cases "iterate_devices devices") (auto simp: fetch_readings_def http_get_def Let_def)
  let ?fm = "device_to_fermenter_name lib fermenters"
  let ?bm = "device_id_to_best_batch lib batches"
  from assms(1) dv ff fb it
  have loop: "fst (devices_loop lib srv ?fm ?bm devs lg3 []) = Inr out"
    by (simp add: fetch_readings_def http_get_def Let_def)
  from assms(2) have "out \<noteq> []" by auto
  from iterate_devices_list[OF it loop this] have "devices = PList devs" .
  moreover from devices_loop_provenance[OF loop assms(2)]
  have "\<exists>d r. PDict d \<in> set devs \<and> truthy (dict_get d ''id'')
           \<and> fst kv = py_str lib (dict_get d ''id'')
           \<and> snd kv = make_record ?fm ?bm d (fst kv) r" by simp
  ultimately show ?thesis using dv by blast
qed

lemma fetch_readings_devices_only:
  "fetch_readings lib (server_devices_only devices) =
     (case iterate_devices devices of
        Inl e \<Rightarrow> (Inl e, collection_requests)
      | Inr devs \<Rightarrow>
          devices_loop lib (server_devices_only devices) Map.empty Map.empty devs
            collection_requests [])"
proof -
  have f: "fetch_fermenters (server_devices_only devices) [(''/devices'', [])]
      = ([], [(''/devices'', []), (''/fermenters'', [])])"
    by (simp add: fetch_fermenters_def http_get_def server_devices_only_def)
  have "\<forall>lg' params. isl (server_devices_only devices lg' (''/batches'', params))"
    by (simp add: server_devices_only_def)
  from fetch_batches_all_fail[OF this, of "[(''/devices'', []), (''/fermenters'', [])]"]
  have b: "fetch_batches (server_devices_only devices) [(''/devices'', []), (''/fermenters'', [])]
      = ([], collection_requests)"
    by (simp add: collection_requests_def)
  have e: "device_to_fermenter_name lib [] = Map.empty" "device_id_to_best_batch lib [] = Map.empty"
    by (simp_all add: device_to_fermenter_name_def device_id_to_best_batch_def)
  show ?thesis
    by (simp add: fetch_readings_def http_get_def f b e server_devices_only_def
        split: sum.splits)
qed


lemma fetch_readings_degraded:
  assumes "srv [] (''/devices'', []) = Inr devices"
    and "isl (srv [(''/devices'', [])] (''/fermenters'', []))"
    and "\<forall>lg' params. isl (srv lg' (''/batches'', params))"
  shows "fetch_readings lib srv =
     (case iterate_devices devices of
        Inl e \<Rightarrow> (Inl e, collection_requests)
      | Inr devs \<Rightarrow> devices_loop lib srv Map.empty Map.empty devs collection_requests [])"
proof -
  from assms(2) obtain e where "srv [(''/devices'', [])] (''/fermenters'', []) = Inl e"
    by (metis isl_def)
  from fetch_fermenters_fails[where srv = srv and lg = "[(''/devices'', [])]", OF this]
  have f: "fetch_fermenters srv [(''/devices'', [])] = ([], [(''/devices'', []), (''/fermenters'', [])])"
    by simp
  from fetch_batches_all_fail[OF assms(3), of "[(''/devices'', []), (''/fermenters'', [])]"]
  have b: "fetch_batches srv [(''/devices'', []), (''/fermenters'', [])] = ([], collection_requests)"
    by (simp add: collection_requests_def)
  have e: "device_to_fermenter_name lib [] = Map.empty" "device_id_to_best_batch lib [] = Map.empty"
    by (simp_all add: device_to_fermenter_name_def device_id_to_best_batch_def)
  show ?thesis
    by (simp add: fetch_readings_def http_get_def assms(1) f b e split: sum.splits)
qed

lemma embedded_reading_d1:
  "embedded_reading lib [(''id'', PStr ''d1''), (''name'', n)] = Inr (PNone, PNone, PNone)"
  by (simp add: embedded_reading_def unwrap_def pick_def py_or_def dict_get_def as_float_def
      nested_field_def temp_keys_def sg_keys_def time_keys_def)

lemma get_latest_reading_devices_only:
  "get_latest_reading (server_devices_only devices) lg ''d1'' = (PNone, lg @ candidates ''d1'')"
  by (simp add: get_latest_reading_def candidates_def http_get_def server_devices_only_def)

lemma devices_loop_d1:
  "devices_loop lib (server_devices_only devices) Map.empty Map.empty [device_d1 n] lg [] =
     (Inr [(''d1'', empty_record (py_or n (PStr ''Plaato d1'')))], lg @ candidates ''d1'')"
  by (simp add: device_d1_def embedded_reading_d1 secondary_lookup_def Let_def
      get_latest_reading_devices_only dict_get_def make_record_def empty_record_def pick_def)

lemma fetch_readings_d1:
  "fetch_readings lib (server_devices_only (PList [device_d1 n])) =
     (Inr [(''d1'', empty_record (py_or n (PStr ''Plaato d1'')))],
      collection_requests @ candidates ''d1'')"
  by (simp add: fetch_readings_devices_only iterate_devices_def devices_loop_d1
      del: devices_loop.simps)

text \<open>
  Claim C6. When the request for \<^verbatim>\<open>/devices\<close> raises, \<^verbatim>\<open>fetch_readings\<close> raises the same error
  after that one request. When the request for \<^verbatim>\<open>/fermenters\<close> raises, the fermenters are the
  empty list; when every request for \<^verbatim>\<open>/batches\<close> raises, the batches are the empty list.
  With both collections failing, the cycle goes on: its result is that of the loop over the
  devices with no fermenter and no batch known.
\<close>

theorem poll_cycle_failures:
  "(srv [] (''/devices'', []) = Inl e \<longrightarrow>
      fetch_readings lib srv = (Inl e, [(''/devices'', [])]))
   \<and> (srv lg (''/fermenters'', []) = Inl e \<longrightarrow>
      fetch_fermenters srv lg = ([], lg @ [(''/fermenters'', [])]))
   \<and> ((\<forall>lg' params. isl (srv lg' (''/batches'', params))) \<longrightarrow>
      fst (fetch_batches srv lg) = [])
   \<and> (srv [] (''/devices'', []) = Inr devices
      \<and> isl (srv [(''/devices'', [])] (''/fermenters'', []))
      \<and> (\<forall>lg' params. isl (srv lg' (''/batches'', params))) \<longrightarrow>
      fetch_readings lib srv =
        (case iterate_devices devices of
           Inl e' \<Rightarrow> (Inl e', collection_requests)
         | Inr devs \<Rightarrow> devices_loop lib srv Map.empty Map.empty devs collection_requests []))"
proof (intro conjI impI)
  assume "srv [] (''/devices'', []) = Inl e"
  then show "fetch_readings lib srv = (Inl e, [(''/devices'', [])])"
    by (simp add: fetch_readings_def http_get_def)
next
  assume "srv lg (''/fermenters'', []) = Inl e"
  then show "fetch_fermenters srv lg = ([], lg @ [(''/fermenters'', [])])"
    by (rule fetch_fermenters_fails)
next
  assume "\<forall>lg' params. isl (srv lg' (''/batches'', params))"
  then show "fst (fetch_batches srv lg) = []"
    by (simp add: fetch_batches_all_fail)
next
  assume "srv [] (''/devices'', []) = Inr devices
      \<and> isl (srv [(''/devices'', [])] (''/fermenters'', []))
      \<and> (\<forall>lg' params. isl (srv lg' (''/batches'', params)))"
  then show "fetch_readings lib srv =
        (case iterate_devices devices of
           Inl e' \<Rightarrow> (Inl e', collection_requests)
         | Inr devs \<Rightarrow> devices_loop lib srv Map.empty Map.empty devs collection_requests [])"
    by (simp add: fetch_readings_degraded)
qed

theorem poll_cycle_failures_witness:
  "server_down [] (''/devices'', []) = Inl TimeoutError
   \<and> fetch_readings bare_lib server_down = (Inl TimeoutError, [(''/devices'', [])])
   \<and> server_devices_only (PList [device_d1 (PStr ''Fermenter 1'')]) [] (''/devices'', [])
       = Inr (PList [device_d1 (PStr ''Fermenter 1'')])
   \<and> server_devices_only (PList [device_d1 (PStr ''Fermenter 1'')]) [(''/devices'', [])]
       (''/fermenters'', []) = Inl ClientError
   \<and> fetch_fermenters (server_devices_only (PList [device_d1 (PStr ''Fermenter 1'')]))
       [(''/devices'', [])] = ([], [(''/devices'', []), (''/fermenters'', [])])
   \<and> fst (fetch_batches (server_devices_only (PList [device_d1 (PStr ''Fermenter 1'')]))
       [(''/devices'', []), (''/fermenters'', [])]) = []
   \<and> fst (fetch_readings bare_lib (server_devices_only (PList [device_d1 (PStr ''Fermenter 1'')])))
       = Inr [(''d1'', empty_record (PStr ''Fermenter 1''))]"
proof -
  let ?srv = "server_devices_only (PList [device_d1 (PStr ''Fermenter 1'')])"
  have down: "server_down [] (''/devices'', []) = Inl TimeoutError"
    by (simp add: server_down_def)
  from poll_cycle_failures[where srv = server_down and e = TimeoutError and lib = bare_lib] down
  have a: "fetch_readings bare_lib server_down = (Inl TimeoutError, [(''/devices'', [])])"
    by blast
  have dv: "?srv [] (''/devices'', []) = Inr (PList [device_d1 (PStr ''Fermenter 1'')])"
    and fe: "?srv [(''/devices'', [])] (''/fermenters'', []) = Inl ClientError"
    and ba: "\<forall>lg' params. isl (?srv lg' (''/batches'', params))"
    by (simp_all add: server_devices_only_def)
  note inst = poll_cycle_failures[where srv = ?srv and e = ClientError and lib = bare_lib
      and lg = "[(''/devices'', [])]" and devices = "PList [device_d1 (PStr ''Fermenter 1'')]"]
  from inst fe have b: "fetch_fermenters ?srv [(''/devices'', [])]
      = ([], [(''/devices'', []), (''/fermenters'', [])])"
    by simp
  from poll_cycle_failures[where srv = ?srv and lg = "[(''/devices'', []), (''/fermenters'', [])]"] ba
  have c: "fst (fetch_batches ?srv [(''/devices'', []), (''/fermenters'', [])]) = []"
    by blast
  from inst dv fe ba
  have "fetch_readings bare_lib ?srv =
        (case iterate_devices (PList [device_d1 (PStr ''Fermenter 1'')]) of
           Inl e' \<Rightarrow> (Inl e', collection_requests)
         | Inr devs \<Rightarrow> devices_loop bare_lib ?srv Map.empty Map.empty devs collection_requests [])"
    by simp
  then have d: "fst (fetch_readings bare_lib ?srv) = Inr [(''d1'', empty_record (PStr ''Fermenter 1''))]"
    by (simp add: iterate_devices_def devices_loop_d1 py_or_def del: devices_loop.simps)
  from down a dv fe b c d show ?thesis by simp
qed


section \<open>The output mapping\<close>

lemma fetch_fermenters_devices_only:
  "fetch_fermenters (server_devices_only devices) lg = ([], lg @ [(''/fermenters'', [])])"
  by (simp add: fetch_fermenters_def http_get_def server_devices_only_def)

lemma fetch_batches_devices_only:
  "fetch_batches (server_devices_only devices) [(''/devices'', []), (''/fermenters'', [])]
     = ([], collection_requests)"
proof -
  have "\<forall>lg' params. isl (server_devices_only devices lg' (''/batches'', params))"
    by (simp add: server_devices_only_def)
  from fetch_batches_all_fail[OF this, of "[(''/devices'', []), (''/fermenters'', [])]"]
  show ?thesis by (simp add: collection_requests_def)
qed

text \<open>
  Claim C8, as the code has it. Every record of the output mapping of \<^verbatim>\<open>fetch_readings\<close> has
  exactly the fields \<^verbatim>\<open>name\<close>, \<^verbatim>\<open>batteryLevel\<close>, \<^verbatim>\<open>wifiStrength\<close>, \<^verbatim>\<open>temperature\<close>,
  \<^verbatim>\<open>density\<close>, \<^verbatim>\<open>time\<close>, \<^verbatim>\<open>fermenter\<close>, \<^verbatim>\<open>batch\<close>. Its \<^verbatim>\<open>name\<close> is never \<^verbatim>\<open>None\<close>: it is
  the \<^verbatim>\<open>name\<close> of the device entry the record was built from (the entry of \<^verbatim>\<open>/devices\<close> with
  a truthy \<^verbatim>\<open>id\<close> whose \<^verbatim>\<open>str(id)\<close> is the record's key) when that name is truthy, of whatever
  type the API sent, and the string \<^verbatim>\<open>Plaato \<close> followed by \<^verbatim>\<open>str(id)\<close> of that entry otherwise.
  Every other field may be \<^verbatim>\<open>None\<close>: for a device with an \<^verbatim>\<open>id\<close> only and no reading to be
  found, all seven are.
\<close>

theorem fetch_readings_record_fields:
  assumes "fst (fetch_readings lib srv) = Inr out" and "(k, r) \<in> set out"
  shows "(\<exists>fields devs d. r = PDict fields \<and> map fst fields = record_keys
            \<and> dict_get fields ''name'' \<noteq> PNone
            \<and> srv [] (''/devices'', []) = Inr (PList devs) \<and> PDict d \<in> set devs
            \<and> truthy (dict_get d ''id'') \<and> k = py_str lib (dict_get d ''id'')
            \<and> dict_get fields ''name''
                = py_or (dict_get d ''name'')
                    (PStr (''Plaato '' @ py_str lib (dict_get d ''id''))))
     \<and> fst (fetch_readings lib (server_devices_only (PList [device_d1 PNone])))
         = Inr [(''d1'', empty_record (PStr ''Plaato d1''))]"
proof
  from fetch_readings_provenance[OF assms]
  obtain devs d t fm bm where dv: "srv [] (''/devices'', []) = Inr (PList devs)"
    and d: "PDict d \<in> set devs" and r: "r = make_record fm bm d k t"
    and idt: "truthy (dict_get d ''id'')" and k: "k = py_str lib (dict_get d ''id'')"
    by auto
  obtain temp sg time where t: "t = (temp, sg, time)" by (cases t)
  define fields where "fields =
     [(''name'', py_or (dict_get d ''name'') (PStr (''Plaato '' @ k))),
      (''batteryLevel'', pick (PDict d) [''batteryLevel'', ''battery'', ''battery_percent'']),
      (''wifiStrength'', pick (PDict d) [''wifiStrength'', ''rssi'', ''signal'']),
      (''temperature'', temp), (''density'', sg), (''time'', time),
      (''fermenter'', case fm k of None \<Rightarrow> PNone | Some n \<Rightarrow> PStr n),
      (''batch'', case bm k of None \<Rightarrow> PNone | Some b \<Rightarrow> batch_label b)]"
  have "r = PDict fields" by (simp add: r t make_record_def fields_def)
  moreover have "map fst fields = record_keys" by (simp add: fields_def record_keys_def)
  moreover have n: "dict_get fields ''name'' = py_or (dict_get d ''name'') (PStr (''Plaato '' @ k))"
    by (simp add: fields_def dict_get_def)
  moreover have "dict_get fields ''name'' \<noteq> PNone"
    unfolding n by (auto simp: py_or_def)
  moreover from n k have "dict_get fields ''name''
      = py_or (dict_get d ''name'') (PStr (''Plaato '' @ py_str lib (dict_get d ''id'')))"
    by simp
  ultimately show "\<exists>fields devs d. r = PDict fields \<and> map fst fields = record_keys
            \<and> dict_get fields ''name'' \<noteq> PNone
            \<and> srv [] (''/devices'', []) = Inr (PList devs) \<and> PDict d \<in> set devs
            \<and> truthy (dict_get d ''id'') \<and> k = py_str lib (dict_get d ''id'')
            \<and> dict_get fields ''name''
                = py_or (dict_get d ''name'')
                    (PStr (''Plaato '' @ py_str lib (dict_get d ''id'')))"
    using dv d idt k by blast
next
  show "fst (fetch_readings lib (server_devices_only (PList [device_d1 PNone])))
         = Inr [(''d1'', empty_record (PStr ''Plaato d1''))]"
    by (simp add: fetch_readings_d1 py_or_def)
qed

theorem fetch_readings_record_fields_witness:
  "fst (fetch_readings bare_lib (server_devices_only (PList [device_d1 (PStr ''Fermenter 1'')])))
     = Inr [(''d1'', empty_record (PStr ''Fermenter 1''))]
   \<and> (''d1'', empty_record (PStr ''Fermenter 1'')) \<in> set [(''d1'', empty_record (PStr ''Fermenter 1''))]
   \<and> (\<exists>fields devs d. empty_record (PStr ''Fermenter 1'') = PDict fields
         \<and> map fst fields = record_keys \<and> dict_get fields ''name'' \<noteq> PNone
         \<and> server_devices_only (PList [device_d1 (PStr ''Fermenter 1'')]) [] (''/devices'', [])
             = Inr (PList devs)
         \<and> PDict d \<in> set devs
         \<and> truthy (dict_get d ''id'') \<and> ''d1'' = py_str bare_lib (dict_get d ''id'')
         \<and> dict_get fields ''name''
             = py_or (dict_get d ''name'')
                 (PStr (''Plaato '' @ py_str bare_lib (dict_get d ''id''))))"
proof -
  have a: "fst (fetch_readings bare_lib (server_devices_only (PList [device_d1 (PStr ''Fermenter 1'')])))
     = Inr [(''d1'', empty_record (PStr ''Fermenter 1''))]"
    by (simp add: fetch_readings_d1 py_or_def)
  have b: "(''d1'', empty_record (PStr ''Fermenter 1''))
      \<in> set [(''d1'', empty_record (PStr ''Fermenter 1''))]"
    by simp
  from fetch_readings_record_fields[OF a b] a b show ?thesis by blast
qed

text \<open>
  The claim as stated fails where the API sends a \<^verbatim>\<open>name\<close> that is not a string: the device
  \<^verbatim>\<open>{"id": "d1", "name": 42}\<close> gets the record whose \<^verbatim>\<open>name\<close> is the integer 42.
\<close>

theorem fetch_readings_name_not_a_string:
  "fst (fetch_readings bare_lib (server_devices_only (PList [device_d1 (PInt 42)])))
     = Inr [(''d1'', empty_record (PInt 42))]
   \<and> empty_record (PInt 42)
     = PDict [(''name'', PInt 42), (''batteryLevel'', PNone), (''wifiStrength'', PNone),
              (''temperature'', PNone), (''density'', PNone), (''time'', PNone),
              (''fermenter'', PNone), (''batch'', PNone)]"
  by (simp add: fetch_readings_d1 py_or_def empty_record_def)

text \<open>
  Claim C10. With the list \<open>devs\<close> as the answer to \<^verbatim>\<open>/devices\<close>, the poll cycle is the cycle
  run on the entries that are not dicts with a missing or falsy \<^verbatim>\<open>id\<close> (an absent \<^verbatim>\<open>id\<close>,
  \<^verbatim>\<open>None\<close>, the empty string, zero): such an entry adds nothing to the output and causes no
  request. Every key of the output mapping is \<^verbatim>\<open>str(id)\<close> for the truthy \<^verbatim>\<open>id\<close> of some device
  entry.
\<close>

theorem fetch_readings_keys:
  assumes "srv [] (''/devices'', []) = Inr (PList devs)"
  shows "fetch_readings lib srv =
       (case fetch_fermenters srv [(''/devices'', [])] of (fermenters, lg2) \<Rightarrow>
        case fetch_batches srv lg2 of (batches, lg3) \<Rightarrow>
          devices_loop lib srv (device_to_fermenter_name lib fermenters)
            (device_id_to_best_batch lib batches)
            (filter (\<lambda>dev. \<not> id_missing dev) devs) lg3 [])
     \<and> (fst (fetch_readings lib srv) = Inr out \<and> k \<in> fst ` set out \<longrightarrow>
          (\<exists>d. PDict d \<in> set devs \<and> truthy (dict_get d ''id'') \<and> k = py_str lib (dict_get d ''id'')))
     \<and> (id_missing (PDict d) \<longleftrightarrow> \<not> truthy (dict_get d ''id''))"
proof (intro conjI impI)
  have it: "iterate_devices (PList devs) = Inr devs"
    by (cases devs) (simp_all add: iterate_devices_def)
  show "fetch_readings lib srv =
       (case fetch_fermenters srv [(''/devices'', [])] of (fermenters, lg2) \<Rightarrow>
        case fetch_batches srv lg2 of (batches, lg3) \<Rightarrow>
          devices_loop lib srv (device_to_fermenter_name lib fermenters)
            (device_id_to_best_batch lib batches)
            (filter (\<lambda>dev. \<not> id_missing dev) devs) lg3 [])"
    by (simp add: fetch_readings_def http_get_def assms it devices_loop_skips Let_def
        split: prod.splits)
next
  assume h: "fst (fetch_readings lib srv) = Inr out \<and> k \<in> fst ` set out"
  then obtain kv where kv: "kv \<in> set out" "k = fst kv" by auto
  from fetch_readings_provenance[OF conjunct1[OF h] kv(1)] assms kv(2)
  show "\<exists>d. PDict d \<in> set devs \<and> truthy (dict_get d ''id'') \<and> k = py_str lib (dict_get d ''id'')"
    by auto
next
  show "id_missing (PDict d) \<longleftrightarrow> \<not> truthy (dict_get d ''id'')"
    by (simp add: id_missing_def)
qed

theorem fetch_readings_keys_witness:
  "server_devices_only (PList devices_mixed) [] (''/devices'', []) = Inr (PList devices_mixed)
   \<and> filter (\<lambda>dev. \<not> id_missing dev) devices_mixed = [device_d1 (PStr ''Fermenter 1'')]
   \<and> fst (fetch_readings bare_lib (server_devices_only (PList devices_mixed)))
       = Inr [(''d1'', empty_record (PStr ''Fermenter 1''))]
   \<and> ''d1'' \<in> fst ` set [(''d1'', empty_record (PStr ''Fermenter 1''))]
   \<and> (\<exists>d. PDict d \<in> set devices_mixed \<and> truthy (dict_get d ''id'')
         \<and> ''d1'' = py_str bare_lib (dict_get d ''id''))"
proof -
  let ?srv = "server_devices_only (PList devices_mixed)"
  have dv: "?srv [] (''/devices'', []) = Inr (PList devices_mixed)"
    by (simp add: server_devices_only_def)
  have fl: "filter (\<lambda>dev. \<not> id_missing dev) devices_mixed = [device_d1 (PStr ''Fermenter 1'')]"
    by (simp add: devices_mixed_def id_missing_def device_d1_def dict_get_def)
  note inst = fetch_readings_keys[where srv = ?srv and devs = devices_mixed and lib = bare_lib
      and k = "''d1''" and out = "[(''d1'', empty_record (PStr ''Fermenter 1''))]", OF dv]
  from inst have "fetch_readings bare_lib ?srv =
       (case fetch_fermenters ?srv [(''/devices'', [])] of (fermenters, lg2) \<Rightarrow>
        case fetch_batches ?srv lg2 of (batches, lg3) \<Rightarrow>
          devices_loop bare_lib ?srv (device_to_fermenter_name bare_lib fermenters)
            (device_id_to_best_batch bare_lib batches)
            (filter (\<lambda>dev. \<not> id_missing dev) devices_mixed) lg3 [])"
    by blast
  then have a: "fst (fetch_readings bare_lib ?srv) = Inr [(''d1'', empty_record (PStr ''Fermenter 1''))]"
    by (simp add: fl fetch_fermenters_devices_only fetch_batches_devices_only devices_loop_d1
        device_to_fermenter_name_def device_id_to_best_batch_def py_or_def
        del: devices_loop.simps)
  have b: "''d1'' \<in> fst ` set [(''d1'', empty_record (PStr ''Fermenter 1''))]"
    by simp
  from inst a b
  have "\<exists>d. PDict d \<in> set devices_mixed \<and> truthy (dict_get d ''id'')
         \<and> ''d1'' = py_str bare_lib (dict_get d ''id'')"
    by blast
  with dv fl a b show ?thesis by blast
qed

end
